theory Spec2Isabelle
  imports Complex_Main "HOL-Library.Word" "HOL-Library.FSet" "HOL-Library.AList"
    "HOL-Library.Log_Nat"
begin

unbundle bit_operations_syntax

section \<open>The metric-result aggregator of \<^verbatim>\<open>src/libmime/filter.c\<close>\<close>

text \<open>
  This theory embeds the functions of \<^verbatim>\<open>filter.c\<close>: the option set of a symbol result
  (\<^verbatim>\<open>rspamd_task_add_result_option\<close>), the group clamp (\<^verbatim>\<open>rspamd_check_group_score\<close>),
  symbol insertion (\<^verbatim>\<open>insert_metric_result\<close>, \<^verbatim>\<open>rspamd_task_insert_result_full\<close>), the
  action selector (\<^verbatim>\<open>rspamd_check_action_metric\<close>) and the symbol query
  (\<^verbatim>\<open>rspamd_task_find_symbol_result\<close>).

  Conventions of the embedding.
  \<^item> A C struct is a record; a pointer that may be \<^verbatim>\<open>NULL\<close> is an \<open>option\<close>.
  \<^item> A function that mutates its arguments returns the new values.
  \<^item> Dereferencing \<^verbatim>\<open>NULL\<close> and a failing \<^verbatim>\<open>g_assert\<close> are the error results
    \<open>Inl Null_dereference\<close> and \<open>Inl Assertion_failed\<close>.
  \<^item> Log calls (\<^verbatim>\<open>msg_info_task\<close> and the like), the memory pool and the sizing hint
    \<^verbatim>\<open>symbols_count\<close> have no effect on the values computed and are left out, as is the
    call to the symbols cache (\<^verbatim>\<open>rspamd_symbols_cache_inc_frequency\<close>), which touches no
    field of the task.
  \<^item> The struct declarations live in headers (\<^verbatim>\<open>filter.h\<close>, \<^verbatim>\<open>cfg_file.h\<close>, \<^verbatim>\<open>task.h\<close>)
    that are not among the sources; the records below have the fields that
    \<^verbatim>\<open>filter.c\<close> reads and writes. The unsigned counters (\<^verbatim>\<open>nshots\<close>,
    \<^verbatim>\<open>npositive\<close>, \<^verbatim>\<open>nnegative\<close>, \<^verbatim>\<open>default_max_shots\<close>) are 32-bit words, on which
    \<^verbatim>\<open>++\<close> wraps around.
  \<^item> The hash tables are declared in the same headers. Their keys are compared here as
    the values they hold: symbol names and option strings as strings, groups (pointers in
    the source) as the group records they point to.
\<close>

subsection \<open>Doubles\<close>

text \<open>
  A \<^verbatim>\<open>double\<close> is an IEEE 754 binary64 value: NaN, an infinity, or a finite value.
  \<open>Fin x\<close> is the finite double of value \<open>x\<close>, with \<open>Fin 0\<close> for \<^verbatim>\<open>+0.0\<close>, and
  \<open>NZero\<close> is \<^verbatim>\<open>-0.0\<close>. The result of an operation is the exact result rounded to the
  nearest double, ties to even, and to an infinity beyond the largest double; every
  comparison with NaN is false, \<open>\<infinity> - \<infinity>\<close> and \<open>0 * \<infinity>\<close> are NaN. The type has a
  \<open>Fin x\<close> for every real \<open>x\<close>, also for those that are not doubles: what is proved
  for all of them holds of the doubles among them, and the operations return doubles.
\<close>

datatype gdouble = Fin real | NZero | PInf | NInf | NaN

text \<open>\<open>pow2 k\<close> is \<open>2\<close> to the power \<open>k\<close>, for an exponent of either sign.\<close>

definition pow2 :: "int \<Rightarrow> real" where
  "pow2 k = (if 0 \<le> k then 2 ^ nat k else 1 / 2 ^ nat (- k))"

text \<open>
  The binary exponent of a positive real: the \<open>e\<close> with
  \<open>pow2 e \<le> x < pow2 (e + 1)\<close>.
\<close>

definition ilog2 :: "real \<Rightarrow> int" where
  "ilog2 x = (if 1 \<le> x then bitlen \<lfloor>x\<rfloor> - 1 else - bitlen (\<lceil>1 / x\<rceil> - 1))"

definition round_half_even :: "real \<Rightarrow> int" where
  "round_half_even q =
     (let f = \<lfloor>q\<rfloor>; r = q - of_int f
      in if r < 1 / 2 then f else if 1 / 2 < r then f + 1 else if even f then f else f + 1)"

text \<open>
  A positive real rounded to a multiple of the unit in the last place of its binade: 53
  significant bits, and the subnormal spacing \<open>pow2 (- 1074)\<close> below \<open>pow2 (- 1022)\<close>.
\<close>

definition round_magnitude :: "real \<Rightarrow> real" where
  "round_magnitude a =
     (let e = max (ilog2 a) (- 1022); u = pow2 (e - 52)
      in of_int (round_half_even (a / u)) * u)"

text \<open>
  The double nearest to a real: overflow gives an infinity, underflow a zero of the
  sign of the real.
\<close>

definition round_double :: "real \<Rightarrow> gdouble" where
  "round_double r =
     (if r = 0 then Fin 0
      else let m = round_magnitude \<bar>r\<bar>
           in if pow2 1024 \<le> m then (if 0 < r then PInf else NInf)
              else if m = 0 then (if 0 < r then Fin 0 else NZero)
              else Fin (if 0 < r then m else - m))"

fun isnan :: "gdouble \<Rightarrow> bool" where
  "isnan NaN = True"
| "isnan (Fin x) = False"
| "isnan NZero = False"
| "isnan PInf = False"
| "isnan NInf = False"

fun isfinite :: "gdouble \<Rightarrow> bool" where
  "isfinite (Fin x) = True"
| "isfinite NZero = True"
| "isfinite PInf = False"
| "isfinite NInf = False"
| "isfinite NaN = False"

text \<open>
  \<open>dlt a b\<close> is the C comparison \<^verbatim>\<open>a < b\<close>, \<open>dle a b\<close> is \<^verbatim>\<open>a <= b\<close>; the two zeros
  compare equal.
\<close>

fun dlt :: "gdouble \<Rightarrow> gdouble \<Rightarrow> bool" where
  "dlt (Fin x) (Fin y) = (x < y)"
| "dlt (Fin x) NZero = (x < 0)"
| "dlt (Fin x) PInf = True"
| "dlt (Fin x) NInf = False"
| "dlt (Fin x) NaN = False"
| "dlt NZero (Fin y) = (0 < y)"
| "dlt NZero NZero = False"
| "dlt NZero PInf = True"
| "dlt NZero NInf = False"
| "dlt NZero NaN = False"
| "dlt NInf (Fin y) = True"
| "dlt NInf NZero = True"
| "dlt NInf PInf = True"
| "dlt NInf NInf = False"
| "dlt NInf NaN = False"
| "dlt PInf b = False"
| "dlt NaN b = False"

fun dle :: "gdouble \<Rightarrow> gdouble \<Rightarrow> bool" where
  "dle (Fin x) (Fin y) = (x \<le> y)"
| "dle (Fin x) NZero = (x \<le> 0)"
| "dle (Fin x) PInf = True"
| "dle (Fin x) NInf = False"
| "dle (Fin x) NaN = False"
| "dle NZero (Fin y) = (0 \<le> y)"
| "dle NZero NZero = True"
| "dle NZero PInf = True"
| "dle NZero NInf = False"
| "dle NZero NaN = False"
| "dle NInf (Fin y) = True"
| "dle NInf NZero = True"
| "dle NInf PInf = True"
| "dle NInf NInf = True"
| "dle NInf NaN = False"
| "dle PInf (Fin y) = False"
| "dle PInf NZero = False"
| "dle PInf PInf = True"
| "dle PInf NInf = False"
| "dle PInf NaN = False"
| "dle NaN b = False"

definition dgt :: "gdouble \<Rightarrow> gdouble \<Rightarrow> bool" where
  "dgt a b = dlt b a"

definition dge :: "gdouble \<Rightarrow> gdouble \<Rightarrow> bool" where
  "dge a b = dle b a"

text \<open>
  The sum of two finite doubles that are not both \<^verbatim>\<open>-0.0\<close>, from their exact sum: an
  exact zero is \<^verbatim>\<open>+0.0\<close>.
\<close>

definition sum_double :: "real \<Rightarrow> gdouble" where
  "sum_double r = (if r = 0 then Fin 0 else round_double r)"

fun dadd :: "gdouble \<Rightarrow> gdouble \<Rightarrow> gdouble" where
  "dadd (Fin x) (Fin y) = sum_double (x + y)"
| "dadd (Fin x) NZero = sum_double x"
| "dadd (Fin x) PInf = PInf"
| "dadd (Fin x) NInf = NInf"
| "dadd (Fin x) NaN = NaN"
| "dadd NZero (Fin y) = sum_double y"
| "dadd NZero NZero = NZero"
| "dadd NZero PInf = PInf"
| "dadd NZero NInf = NInf"
| "dadd NZero NaN = NaN"
| "dadd PInf (Fin y) = PInf"
| "dadd PInf NZero = PInf"
| "dadd PInf PInf = PInf"
| "dadd PInf NInf = NaN"
| "dadd PInf NaN = NaN"
| "dadd NInf (Fin y) = NInf"
| "dadd NInf NZero = NInf"
| "dadd NInf PInf = NaN"
| "dadd NInf NInf = NInf"
| "dadd NInf NaN = NaN"
| "dadd NaN b = NaN"

fun dneg :: "gdouble \<Rightarrow> gdouble" where
  "dneg (Fin x) = (if x = 0 then NZero else Fin (- x))"
| "dneg NZero = Fin 0"
| "dneg PInf = NInf"
| "dneg NInf = PInf"
| "dneg NaN = NaN"

definition dsub :: "gdouble \<Rightarrow> gdouble \<Rightarrow> gdouble" where
  "dsub a b = dadd a (dneg b)"

text \<open>
  \<^verbatim>\<open>signbit\<close>: set for negative values and for \<^verbatim>\<open>-0.0\<close>. For NaN it is only
  evaluated by \<^verbatim>\<open>insert_metric_result\<close> behind \<^verbatim>\<open>fabs (s->score) < fabs (final_score)\<close>,
  which is false when either side is NaN.
\<close>

fun signbit :: "gdouble \<Rightarrow> bool" where
  "signbit (Fin x) = (x < 0)"
| "signbit NZero = True"
| "signbit PInf = False"
| "signbit NInf = True"
| "signbit NaN = False"

text \<open>
  The product of two finite doubles from their exact product: a zero product has the
  sign that the two sign bits give.
\<close>

definition product_double :: "real \<Rightarrow> bool \<Rightarrow> gdouble" where
  "product_double r negative =
     (if r = 0 then (if negative then NZero else Fin 0) else round_double r)"

text \<open>The product of an infinity with a finite double; \<open>0 * \<infinity>\<close> is NaN.\<close>

definition inf_times :: "bool \<Rightarrow> real \<Rightarrow> gdouble" where
  "inf_times positive x =
     (if x = 0 then NaN else if (0 < x) = positive then PInf else NInf)"

fun dmul :: "gdouble \<Rightarrow> gdouble \<Rightarrow> gdouble" where
  "dmul (Fin x) (Fin y) = product_double (x * y) ((x < 0) \<noteq> (y < 0))"
| "dmul (Fin x) NZero = product_double 0 (\<not> x < 0)"
| "dmul (Fin x) PInf = inf_times True x"
| "dmul (Fin x) NInf = inf_times False x"
| "dmul (Fin x) NaN = NaN"
| "dmul NZero (Fin y) = product_double 0 (\<not> y < 0)"
| "dmul NZero NZero = Fin 0"
| "dmul NZero PInf = NaN"
| "dmul NZero NInf = NaN"
| "dmul NZero NaN = NaN"
| "dmul PInf (Fin y) = inf_times True y"
| "dmul PInf NZero = NaN"
| "dmul PInf PInf = PInf"
| "dmul PInf NInf = NInf"
| "dmul PInf NaN = NaN"
| "dmul NInf (Fin y) = inf_times False y"
| "dmul NInf NZero = NaN"
| "dmul NInf PInf = NInf"
| "dmul NInf NInf = PInf"
| "dmul NInf NaN = NaN"
| "dmul NaN b = NaN"

fun fabs :: "gdouble \<Rightarrow> gdouble" where
  "fabs (Fin x) = Fin \<bar>x\<bar>"
| "fabs NZero = Fin 0"
| "fabs PInf = PInf"
| "fabs NInf = PInf"
| "fabs NaN = NaN"

text \<open>
  A double used as a C condition: true unless it compares equal to zero, which both
  zeros do.
\<close>

definition nonzero :: "gdouble \<Rightarrow> bool" where
  "nonzero d = (d \<noteq> Fin 0 \<and> d \<noteq> NZero)"

text \<open>The macro \<^verbatim>\<open>MIN(a, b)\<close>, that is \<^verbatim>\<open>((a) < (b)) ? (a) : (b)\<close>.\<close>

definition MIN_macro :: "gdouble \<Rightarrow> gdouble \<Rightarrow> gdouble" where
  "MIN_macro a b = (if dlt a b then a else b)"

definition DBL_EPSILON :: gdouble where
  "DBL_EPSILON = Fin (1 / 2 ^ 52)"

definition G_MAXDOUBLE :: gdouble where
  "G_MAXDOUBLE = Fin ((2 ^ 53 - 1) * 2 ^ 971)"

subsection \<open>The data model\<close>

datatype error = Null_dereference | Assertion_failed

datatype rspamd_action_type =
    METRIC_ACTION_REJECT
  | METRIC_ACTION_SOFT_REJECT
  | METRIC_ACTION_REWRITE_SUBJECT
  | METRIC_ACTION_ADD_HEADER
  | METRIC_ACTION_GREYLIST
  | METRIC_ACTION_NOACTION

text \<open>
  The slots \<^verbatim>\<open>METRIC_ACTION_REJECT\<close> .. \<^verbatim>\<open>METRIC_ACTION_MAX - 1\<close> in the order of the
  \<^verbatim>\<open>for\<close> loop of \<^verbatim>\<open>rspamd_check_action_metric\<close>; an array indexed by the enumeration is
  a function on it.
\<close>

definition action_slots :: "rspamd_action_type list" where
  "action_slots =
     [METRIC_ACTION_REJECT, METRIC_ACTION_SOFT_REJECT, METRIC_ACTION_REWRITE_SUBJECT,
      METRIC_ACTION_ADD_HEADER, METRIC_ACTION_GREYLIST, METRIC_ACTION_NOACTION]"

datatype rspamd_symbol_insert_flag =
    RSPAMD_SYMBOL_INSERT_SINGLE
  | RSPAMD_SYMBOL_INSERT_ENFORCE

datatype rspamd_symbol_flag =
    RSPAMD_SYMBOL_FLAG_ONEPARAM
  | RSPAMD_SYMBOL_FLAG_OTHER nat

record rspamd_symbols_group =
  gr_name :: string
  max_score :: gdouble

record rspamd_symbol =
  weight_ptr :: gdouble
  groups :: "rspamd_symbols_group list"
  sdef_nshots :: int
  sdef_flags :: "rspamd_symbol_flag set"

record rspamd_action =
  action :: rspamd_action_type
  act_score :: gdouble

record rspamd_config =
  cfg_symbols :: "string \<rightharpoonup> rspamd_symbol"
  actions :: "rspamd_action_type \<Rightarrow> rspamd_action"
  cfg_grow_factor :: gdouble
  default_max_shots :: "32 word"

text \<open>
  \<open>options\<close> is the hash of option strings (absent until the first option),
  \<open>opts_head\<close> the list the options are appended to.
\<close>

record rspamd_symbol_result =
  sr_score :: gdouble
  options :: "string fset option"
  opts_head :: "string list"
  sr_name :: string
  sym :: "rspamd_symbol option"
  nshots :: "32 word"

record rspamd_passthrough_result =
  pr_action :: rspamd_action_type
  priority :: nat
  target_score :: gdouble
  message :: string
  module :: string

text \<open>
  \<open>symbols\<close> is the hash from symbol name to symbol result, kept as an association list
  with distinct keys; \<open>sym_groups\<close> is the hash from group to accumulated group score.
\<close>

record rspamd_metric_result =
  score :: gdouble
  grow_factor :: gdouble
  passthrough_result :: "rspamd_passthrough_result list"
  npositive :: "32 word"
  nnegative :: "32 word"
  positive_score :: gdouble
  negative_score :: gdouble
  symbols :: "(string \<times> rspamd_symbol_result) list"
  sym_groups :: "rspamd_symbols_group \<rightharpoonup> gdouble"
  actions_limits :: "rspamd_action_type \<Rightarrow> gdouble"

text \<open>
  \<open>settings\<close> maps a symbol to its numeric correction, where the settings object has
  one that \<^verbatim>\<open>ucl_object_todouble_safe\<close> accepts.
\<close>

record rspamd_task =
  cfg :: "rspamd_config option"
  settings :: "(string \<rightharpoonup> gdouble) option"
  processed_stages :: "32 word"
  result :: "rspamd_metric_result option"

subsection \<open>\<^verbatim>\<open>rspamd_create_metric_result\<close>\<close>

definition rspamd_create_metric_result :: "rspamd_task \<Rightarrow> rspamd_metric_result" where
  "rspamd_create_metric_result task =
     (case result task of
        Some metric_res \<Rightarrow> metric_res
      | None \<Rightarrow>
          \<lparr> score = Fin 0, grow_factor = Fin 0, passthrough_result = [],
            npositive = 0, nnegative = 0, positive_score = Fin 0, negative_score = Fin 0,
            symbols = [], sym_groups = Map.empty,
            actions_limits =
              (case cfg task of
                 Some c \<Rightarrow> (\<lambda>i. act_score (actions c i))
               | None \<Rightarrow> (\<lambda>i. NaN)) \<rparr>)"

subsection \<open>\<^verbatim>\<open>rspamd_check_group_score\<close>\<close>

definition rspamd_check_group_score ::
  "rspamd_symbols_group option \<Rightarrow> gdouble option \<Rightarrow> gdouble \<Rightarrow> gdouble" where
  "rspamd_check_group_score gr group_score w =
     (case (gr, group_score) of
        (Some g, Some gs) \<Rightarrow>
          if dgt (max_score g) (Fin 0) \<and> dgt w (Fin 0) then
            if dge gs (max_score g) \<and> dgt w (Fin 0) then NaN
            else if dgt (dadd gs w) (max_score g) then dsub (max_score g) gs
            else w
          else w
      | _ \<Rightarrow> w)"

subsection \<open>\<^verbatim>\<open>rspamd_task_add_result_option\<close>\<close>

text \<open>
  The \<^verbatim>\<open>else\<close> branch of the source: a fresh hash holding only the new option replaces
  \<^verbatim>\<open>s->options\<close>, and the option is appended to \<^verbatim>\<open>s->opts_head\<close>.
\<close>

definition new_options :: "rspamd_symbol_result \<Rightarrow> string \<Rightarrow> rspamd_symbol_result" where
  "new_options s val = s\<lparr>options := Some {|val|}, opts_head := opts_head s @ [val]\<rparr>"

definition is_oneparam :: "rspamd_symbol_result \<Rightarrow> bool" where
  "is_oneparam s =
     (case sym s of
        Some sdef \<Rightarrow> RSPAMD_SYMBOL_FLAG_ONEPARAM \<in> sdef_flags sdef
      | None \<Rightarrow> False)"

text \<open>
  Returns \<^verbatim>\<open>ret\<close> and the symbol result as the call leaves it. \<^verbatim>\<open>task->cfg\<close> is read
  only when \<^verbatim>\<open>s->options\<close> is set and the symbol is not one-parameter (the \<^verbatim>\<open>&&\<close> chain of
  the source short-circuits).
\<close>

definition rspamd_task_add_result_option ::
  "rspamd_task \<Rightarrow> rspamd_symbol_result option \<Rightarrow> string option \<Rightarrow>
   error + (bool \<times> rspamd_symbol_result option)" where
  "rspamd_task_add_result_option task s val =
     (case (s, val) of
        (Some sr, Some v) \<Rightarrow>
          (case options sr of
             None \<Rightarrow> Inr (True, Some (new_options sr v))
           | Some os \<Rightarrow>
               if is_oneparam sr then Inr (True, Some (new_options sr v))
               else
                 (case cfg task of
                    None \<Rightarrow> Inl Null_dereference
                  | Some c \<Rightarrow>
                      if fcard os < unat (default_max_shots c) then
                        if v |\<notin>| os then
                          Inr (True,
                            Some (sr\<lparr>options := Some (finsert v os),
                                     opts_head := opts_head sr @ [v]\<rparr>))
                        else Inr (False, Some sr)
                      else Inr (True, Some (new_options sr v))))
      | (None, Some v) \<Rightarrow> Inr (False, None)
      | (_, None) \<Rightarrow> Inr (True, s))"

subsection \<open>\<^verbatim>\<open>insert_metric_result\<close>\<close>

text \<open>
  The first loop over \<^verbatim>\<open>sdef->groups\<close>: a group that has no entry in
  \<^verbatim>\<open>metric_res->sym_groups\<close> gets one, with score 0.
\<close>

fun ensure_groups ::
  "rspamd_symbols_group list \<Rightarrow> (rspamd_symbols_group \<rightharpoonup> gdouble) \<Rightarrow>
   (rspamd_symbols_group \<rightharpoonup> gdouble)" where
  "ensure_groups [] sg = sg"
| "ensure_groups (gr # grs) sg =
     ensure_groups grs (case sg gr of None \<Rightarrow> sg(gr \<mapsto> Fin 0) | Some v \<Rightarrow> sg)"

definition ensure_symbol_groups ::
  "rspamd_symbol option \<Rightarrow> rspamd_metric_result \<Rightarrow> rspamd_metric_result" where
  "ensure_symbol_groups sdef metric_res =
     (case sdef of
        None \<Rightarrow> metric_res
      | Some d \<Rightarrow>
          metric_res\<lparr>sym_groups := ensure_groups (groups d) (sym_groups metric_res)\<rparr>)"

text \<open>
  The computation of \<^verbatim>\<open>final_score\<close> before the symbol is looked up: the sanitised
  weight times the static weight (or 1 for an enforced unknown symbol, 0 for another
  unknown symbol), replaced by the correction of the settings when there is one.
\<close>

definition sanitize_weight :: "gdouble \<Rightarrow> gdouble" where
  "sanitize_weight weight = (if \<not> isfinite weight then Fin 0 else weight)"

definition base_score ::
  "rspamd_symbol option \<Rightarrow> (string \<rightharpoonup> gdouble) option \<Rightarrow> string \<Rightarrow> gdouble \<Rightarrow>
   rspamd_symbol_insert_flag set \<Rightarrow> gdouble" where
  "base_score sdef sett symbol weight flags =
     (let final_score =
        (case sdef of
           None \<Rightarrow>
             if RSPAMD_SYMBOL_INSERT_ENFORCE \<in> flags then dmul (Fin 1) weight else Fin 0
         | Some d \<Rightarrow> dmul (weight_ptr d) weight)
      in case sett of
           None \<Rightarrow> final_score
         | Some mobj \<Rightarrow>
             (case mobj symbol of
                None \<Rightarrow> final_score
              | Some corr \<Rightarrow> dmul corr weight))"

text \<open>
  ``Handle grow factor'': the contribution \<open>x\<close> as amplified, and \<^verbatim>\<open>next_gf\<close>, which
  starts as 1.0.
\<close>

definition handle_grow_factor :: "gdouble \<Rightarrow> gdouble \<Rightarrow> gdouble \<Rightarrow> gdouble \<times> gdouble" where
  "handle_grow_factor mres_gf cfg_gf x =
     (if nonzero mres_gf \<and> dgt x (Fin 0) then (dmul x mres_gf, dmul (Fin 1) cfg_gf)
      else if dgt x (Fin 0) then (x, cfg_gf)
      else (x, Fin 1))"

text \<open>
  The loop that checks the group limits, the same in both branches: it returns the group
  scores and the contribution as the loop leaves them; the contribution is NaN when a
  group has reached its limit. The \<^verbatim>\<open>g_assert\<close> fails on a group without an entry.
\<close>

fun check_groups ::
  "rspamd_symbols_group list \<Rightarrow> (rspamd_symbols_group \<rightharpoonup> gdouble) \<Rightarrow> gdouble \<Rightarrow>
   error + ((rspamd_symbols_group \<rightharpoonup> gdouble) \<times> gdouble)" where
  "check_groups [] sg diff = Inr (sg, diff)"
| "check_groups (gr # grs) sg diff =
     (case sg gr of
        None \<Rightarrow> Inl Assertion_failed
      | Some gr_score \<Rightarrow>
          (let cur_diff = rspamd_check_group_score (Some gr) (Some gr_score) diff in
           if isnan cur_diff then Inr (sg, NaN)
           else check_groups grs (sg(gr \<mapsto> dadd gr_score cur_diff))
                  (if dlt cur_diff diff then cur_diff else diff)))"

definition check_symbol_groups ::
  "rspamd_symbol option \<Rightarrow> (rspamd_symbols_group \<rightharpoonup> gdouble) \<Rightarrow> gdouble \<Rightarrow>
   error + ((rspamd_symbols_group \<rightharpoonup> gdouble) \<times> gdouble)" where
  "check_symbol_groups sdef sg diff =
     (case sdef of None \<Rightarrow> Inr (sg, diff) | Some d \<Rightarrow> check_groups (groups d) sg diff)"

text \<open>
  What an insertion did with its contribution, read off the locals \<^verbatim>\<open>diff\<close> (repeat
  hit) and \<^verbatim>\<open>final_score\<close> (first hit): \<open>Skipped\<close> when a repeat hit computed
  \<^verbatim>\<open>diff == 0\<close>, \<open>Dropped\<close> when the group loop left NaN, and otherwise
  \<open>Applied d0 d\<close> with \<open>d0\<close> the value before the grow factor and \<open>d\<close> the value added
  to the score.
\<close>

datatype contribution = Skipped | Dropped | Applied gdouble gdouble

text \<open>The repeat-hit option handling: \<^verbatim>\<open>s->nshots\<close> and the options.\<close>

definition repeat_options ::
  "rspamd_task \<Rightarrow> rspamd_symbol_result \<Rightarrow> string option \<Rightarrow> error + rspamd_symbol_result" where
  "repeat_options task s opt =
     (case (opt, options s) of
        (Some v, Some os) \<Rightarrow>
          if v |\<notin>| os then
            (case rspamd_task_add_result_option task (Some s) opt of
               Inl e \<Rightarrow> Inl e
             | Inr (ret, s') \<Rightarrow> Inr (case s' of Some r \<Rightarrow> r | None \<Rightarrow> s))
          else Inr (s\<lparr>nshots := nshots s + 1\<rparr>)
      | _ \<Rightarrow>
          (case rspamd_task_add_result_option task (Some (s\<lparr>nshots := nshots s + 1\<rparr>)) opt of
             Inl e \<Rightarrow> Inl e
           | Inr (ret, s') \<Rightarrow> Inr (case s' of Some r \<Rightarrow> r | None \<Rightarrow> s\<lparr>nshots := nshots s + 1\<rparr>)))"

text \<open>``Adjust diff''.\<close>

definition adjust_diff :: "bool \<Rightarrow> gdouble \<Rightarrow> gdouble \<Rightarrow> gdouble" where
  "adjust_diff single s_score final_score =
     (if \<not> single then final_score
      else if dlt (fabs s_score) (fabs final_score) \<and> signbit s_score = signbit final_score
      then dsub final_score s_score
      else Fin 0)"

definition is_single ::
  "rspamd_config \<Rightarrow> rspamd_symbol option \<Rightarrow> rspamd_symbol_result \<Rightarrow>
   rspamd_symbol_insert_flag set \<Rightarrow> bool" where
  "is_single c sdef s flags =
     (let single = (RSPAMD_SYMBOL_INSERT_SINGLE \<in> flags);
          max_shots =
            (if single then 1
             else case sdef of Some d \<Rightarrow> sdef_nshots d | None \<Rightarrow> sint (default_max_shots c))
      in if \<not> single \<and> (max_shots > 0 \<and> uint (nshots s) \<ge> max_shots) then True else single)"

text \<open>The repeat-hit branch: the symbol result \<open>s\<close> is already in the hash.\<close>

definition repeat_hit ::
  "rspamd_task \<Rightarrow> rspamd_config \<Rightarrow> rspamd_metric_result \<Rightarrow> rspamd_symbol option \<Rightarrow>
   rspamd_symbol_result \<Rightarrow> gdouble \<Rightarrow> string option \<Rightarrow> rspamd_symbol_insert_flag set \<Rightarrow>
   error + (rspamd_symbol_result \<times> rspamd_metric_result \<times> contribution)" where
  "repeat_hit task c metric_res sdef s final_score opt flags =
     (let single = is_single c sdef s flags in
      case repeat_options task s opt of
        Inl e \<Rightarrow> Inl e
      | Inr s1 \<Rightarrow>
          (let diff = adjust_diff single (sr_score s1) final_score in
           if nonzero diff then
             (case handle_grow_factor (grow_factor metric_res) (cfg_grow_factor c) diff of
                (diff1, next_gf) \<Rightarrow>
                  (case check_symbol_groups sdef (sym_groups metric_res) diff1 of
                     Inl e \<Rightarrow> Inl e
                   | Inr (sg, diff2) \<Rightarrow>
                       if \<not> isnan diff2 then
                         Inr (if single then s1\<lparr>sr_score := final_score\<rparr>
                              else s1\<lparr>sr_score := dadd (sr_score s1) diff2\<rparr>,
                              metric_res\<lparr>score := dadd (score metric_res) diff2,
                                         grow_factor := next_gf, sym_groups := sg\<rparr>,
                              Applied diff diff2)
                       else Inr (s1, metric_res\<lparr>sym_groups := sg\<rparr>, Dropped)))
           else Inr (s1, metric_res, Skipped)))"

text \<open>The positive and negative ledgers, updated on a first hit that was not dropped.\<close>

definition update_ledgers :: "rspamd_metric_result \<Rightarrow> gdouble \<Rightarrow> rspamd_metric_result" where
  "update_ledgers metric_res final_score =
     (if dgt final_score DBL_EPSILON then
        metric_res\<lparr>npositive := npositive metric_res + 1,
                   positive_score := dadd (positive_score metric_res) final_score\<rparr>
      else if dlt final_score (dneg DBL_EPSILON) then
        metric_res\<lparr>nnegative := nnegative metric_res + 1,
                   negative_score := dadd (negative_score metric_res) (fabs final_score)\<rparr>
      else metric_res)"

text \<open>
  The symbol result of a first hit: zeroed by \<^verbatim>\<open>memset\<close>, then \<^verbatim>\<open>name\<close>, \<^verbatim>\<open>sym\<close> and
  \<^verbatim>\<open>nshots\<close> are assigned.
\<close>

definition new_symbol_result :: "string \<Rightarrow> rspamd_symbol option \<Rightarrow> rspamd_symbol_result" where
  "new_symbol_result symbol sdef =
     \<lparr> sr_score = Fin 0, options = None, opts_head = [], sr_name = symbol,
       sym = sdef, nshots = 1 \<rparr>"

text \<open>The first-hit branch: a new symbol result is put into the hash.\<close>

definition first_hit ::
  "rspamd_task \<Rightarrow> rspamd_config \<Rightarrow> rspamd_metric_result \<Rightarrow> rspamd_symbol option \<Rightarrow>
   string \<Rightarrow> gdouble \<Rightarrow> string option \<Rightarrow>
   error + (rspamd_symbol_result \<times> rspamd_metric_result \<times> contribution)" where
  "first_hit task c metric_res sdef symbol final_score opt =
     (case handle_grow_factor (grow_factor metric_res) (cfg_grow_factor c) final_score of
        (final1, next_gf) \<Rightarrow>
          (let s = new_symbol_result symbol sdef in
           case check_symbol_groups sdef (sym_groups metric_res) final1 of
             Inl e \<Rightarrow> Inl e
           | Inr (sg, final2) \<Rightarrow>
               (let s1 = (if \<not> isnan final2 then s\<lparr>sr_score := final2\<rparr>
                          else s\<lparr>sr_score := Fin 0\<rparr>);
                    m1 = (if \<not> isnan final2 then
                            update_ledgers
                              (metric_res\<lparr>score := dadd (score metric_res) final2,
                                          grow_factor := next_gf, sym_groups := sg\<rparr>) final2
                          else metric_res\<lparr>sym_groups := sg\<rparr>);
                    k = (if \<not> isnan final2 then Applied final_score final2 else Dropped)
                in case rspamd_task_add_result_option task (Some s1) opt of
                     Inl e \<Rightarrow> Inl e
                   | Inr (ret, s') \<Rightarrow> Inr (case s' of Some r \<Rightarrow> r | None \<Rightarrow> s1, m1, k))))"

text \<open>
  \<^verbatim>\<open>insert_metric_result\<close>, returning the symbol result \<^verbatim>\<open>s\<close> points to, the task and
  what happened to the contribution.
\<close>

definition insert_metric_result_contribution ::
  "rspamd_task \<Rightarrow> string \<Rightarrow> gdouble \<Rightarrow> string option \<Rightarrow> rspamd_symbol_insert_flag set \<Rightarrow>
   error + (rspamd_symbol_result \<times> rspamd_task \<times> contribution)" where
  "insert_metric_result_contribution task symbol weight opt flags =
     (case cfg task of
        None \<Rightarrow> Inl Null_dereference
      | Some c \<Rightarrow>
     (case result task of
        None \<Rightarrow> Inl Null_dereference
      | Some metric_res \<Rightarrow>
          (let w = sanitize_weight weight;
               sdef = cfg_symbols c symbol;
               final_score = base_score sdef (settings task) symbol w flags;
               m0 = ensure_symbol_groups sdef metric_res
           in case (case map_of (symbols m0) symbol of
                      Some s \<Rightarrow> repeat_hit task c m0 sdef s final_score opt flags
                    | None \<Rightarrow> first_hit task c m0 sdef symbol final_score opt) of
                Inl e \<Rightarrow> Inl e
              | Inr (s', m', k) \<Rightarrow>
                  Inr (s',
                       task\<lparr>result := Some (m'\<lparr>symbols := AList.update symbol s' (symbols m')\<rparr>)\<rparr>,
                       k))))"

definition insert_metric_result ::
  "rspamd_task \<Rightarrow> string \<Rightarrow> gdouble \<Rightarrow> string option \<Rightarrow> rspamd_symbol_insert_flag set \<Rightarrow>
   error + (rspamd_symbol_result \<times> rspamd_task)" where
  "insert_metric_result task symbol weight opt flags =
     (case insert_metric_result_contribution task symbol weight opt flags of
        Inl e \<Rightarrow> Inl e
      | Inr (s, task', k) \<Rightarrow> Inr (s, task'))"

subsection \<open>\<^verbatim>\<open>rspamd_task_insert_result_full\<close>\<close>

text \<open>
  The constant \<^verbatim>\<open>RSPAMD_TASK_STAGE_IDEMPOTENT\<close> is declared outside the sources and is
  the first argument. The result is \<open>None\<close> for \<^verbatim>\<open>NULL\<close>.
\<close>

definition idempotent_phase :: "32 word \<Rightarrow> rspamd_task \<Rightarrow> bool" where
  "idempotent_phase STAGE_IDEMPOTENT task =
     (processed_stages task AND drop_bit 1 STAGE_IDEMPOTENT \<noteq> 0)"

definition rspamd_task_insert_result_full ::
  "32 word \<Rightarrow> rspamd_task \<Rightarrow> string \<Rightarrow> gdouble \<Rightarrow> string option \<Rightarrow>
   rspamd_symbol_insert_flag set \<Rightarrow> error + (rspamd_symbol_result option \<times> rspamd_task)" where
  "rspamd_task_insert_result_full STAGE_IDEMPOTENT task symbol weight opt flags =
     (if idempotent_phase STAGE_IDEMPOTENT task then Inr (None, task)
      else case insert_metric_result task symbol weight opt flags of
             Inl e \<Rightarrow> Inl e
           | Inr (s, task') \<Rightarrow> Inr (Some s, task'))"

subsection \<open>\<^verbatim>\<open>rspamd_task_find_symbol_result\<close>\<close>

definition rspamd_task_find_symbol_result ::
  "rspamd_task \<Rightarrow> string \<Rightarrow> rspamd_symbol_result option" where
  "rspamd_task_find_symbol_result task sym_name =
     (case result task of
        Some r \<Rightarrow> map_of (symbols r) sym_name
      | None \<Rightarrow> None)"

subsection \<open>\<^verbatim>\<open>rspamd_check_action_metric\<close>\<close>

text \<open>
  The \<^verbatim>\<open>for\<close> loop over the action slots, with the locals \<^verbatim>\<open>selected_action\<close> and
  \<^verbatim>\<open>max_score\<close> as the accumulator.
\<close>

fun select_action ::
  "rspamd_config \<Rightarrow> rspamd_metric_result \<Rightarrow> rspamd_action_type list \<Rightarrow>
   rspamd_action option \<times> gdouble \<Rightarrow> rspamd_action option \<times> gdouble" where
  "select_action c mres [] acc = acc"
| "select_action c mres (i # is) (selected_action, max_sc) =
     (let sc = actions_limits mres i in
      if isnan sc then select_action c mres is (selected_action, max_sc)
      else if dge (score mres) sc \<and> dgt sc max_sc
      then select_action c mres is (Some (actions c i), sc)
      else select_action c mres is (selected_action, max_sc))"

text \<open>\<^verbatim>\<open>set_action\<close> is initialised to \<^verbatim>\<open>FALSE\<close> and never assigned.\<close>

definition set_action :: bool where
  "set_action = False"

definition rspamd_check_action_metric ::
  "rspamd_task \<Rightarrow> rspamd_metric_result \<Rightarrow>
   error + (rspamd_action_type \<times> rspamd_metric_result)" where
  "rspamd_check_action_metric task mres =
     (case result task of
        None \<Rightarrow> Inl Null_dereference
      | Some r \<Rightarrow>
     (case cfg task of
        None \<Rightarrow> Inl Null_dereference
      | Some c \<Rightarrow>
          (case passthrough_result r of
             [] \<Rightarrow>
               (case select_action c mres action_slots (None, dneg G_MAXDOUBLE) of
                  (selected, max_sc) \<Rightarrow>
                    (let selected_action =
                       (if set_action \<and> selected = None
                        then Some (actions c METRIC_ACTION_NOACTION) else selected)
                     in Inr (case selected_action of
                               Some a \<Rightarrow> action a
                             | None \<Rightarrow> METRIC_ACTION_NOACTION, mres)))
           | pr # rest \<Rightarrow>
               (let sc = target_score pr;
                    selected_action = actions c (pr_action pr);
                    mres' =
                      (if \<not> isnan sc then
                         if pr_action pr = METRIC_ACTION_NOACTION
                         then mres\<lparr>score := MIN_macro sc (score mres)\<rparr>
                         else mres\<lparr>score := sc\<rparr>
                       else mres)
                in Inr (action selected_action, mres')))))"

subsection \<open>Sequences of insert calls\<close>

datatype insert_call =
  Insert_call string gdouble "string option" "rspamd_symbol_insert_flag set"

fun run_inserts :: "32 word \<Rightarrow> rspamd_task \<Rightarrow> insert_call list \<Rightarrow> error + rspamd_task" where
  "run_inserts STAGE_IDEMPOTENT task [] = Inr task"
| "run_inserts STAGE_IDEMPOTENT task (Insert_call symbol weight opt flags # calls) =
     (case rspamd_task_insert_result_full STAGE_IDEMPOTENT task symbol weight opt flags of
        Inl e \<Rightarrow> Inl e
      | Inr (s, task') \<Rightarrow> run_inserts STAGE_IDEMPOTENT task' calls)"

text \<open>A task right after \<^verbatim>\<open>task->result = rspamd_create_metric_result (task)\<close>.\<close>

definition with_fresh_result :: "rspamd_task \<Rightarrow> rspamd_task" where
  "with_fresh_result task =
     task\<lparr>result := Some (rspamd_create_metric_result (task\<lparr>result := None\<rparr>))\<rparr>"

text \<open>The sum of \<^verbatim>\<open>nshots\<close> over the entries of the symbols hash.\<close>

definition total_shots :: "rspamd_metric_result \<Rightarrow> nat" where
  "total_shots mres = sum_list (map (\<lambda>(k, s). unat (nshots s)) (symbols mres))"

subsection \<open>Invariants and auxiliary definitions\<close>

text \<open>
  Every entry of the symbols hash has a shot counter between 1 and \<open>n\<close>; it holds
  with \<open>n\<close> the number of insert calls since the metric result was created, as long as
  the counters have not wrapped.
\<close>

definition shots_bounded :: "nat \<Rightarrow> rspamd_metric_result \<Rightarrow> bool" where
  "shots_bounded n m =
     (\<forall>k s. map_of (symbols m) k = Some s \<longrightarrow> 1 \<le> unat (nshots s) \<and> unat (nshots s) \<le> n)"

text \<open>
  The branch of \<^verbatim>\<open>insert_metric_result\<close> taken for a symbol, with the arguments it is
  called with.
\<close>

definition hit ::
  "rspamd_task \<Rightarrow> rspamd_config \<Rightarrow> rspamd_metric_result \<Rightarrow> string \<Rightarrow> gdouble \<Rightarrow>
   string option \<Rightarrow> rspamd_symbol_insert_flag set \<Rightarrow>
   error + (rspamd_symbol_result \<times> rspamd_metric_result \<times> contribution)" where
  "hit task c m symbol weight opt flags =
     (case map_of (symbols m) symbol of
        Some s \<Rightarrow>
          repeat_hit task c (ensure_symbol_groups (cfg_symbols c symbol) m) (cfg_symbols c symbol) s
            (base_score (cfg_symbols c symbol) (settings task) symbol (sanitize_weight weight) flags)
            opt flags
      | None \<Rightarrow>
          first_hit task c (ensure_symbol_groups (cfg_symbols c symbol) m) (cfg_symbols c symbol) symbol
            (base_score (cfg_symbols c symbol) (settings task) symbol (sanitize_weight weight) flags)
            opt)"


text \<open>
  The value that decides on the grow factor: \<^verbatim>\<open>final_score\<close> on a first hit, \<^verbatim>\<open>diff\<close>
  on a repeat hit, as computed from the metric result \<open>m\<close> the call starts from.
\<close>

definition insert_diff ::
  "rspamd_config \<Rightarrow> rspamd_task \<Rightarrow> rspamd_metric_result \<Rightarrow> string \<Rightarrow> gdouble \<Rightarrow>
   rspamd_symbol_insert_flag set \<Rightarrow> gdouble" where
  "insert_diff c task m symbol weight flags =
     (let sdef = cfg_symbols c symbol;
          final_score = base_score sdef (settings task) symbol (sanitize_weight weight) flags
      in case map_of (symbols m) symbol of
           None \<Rightarrow> final_score
         | Some s \<Rightarrow> adjust_diff (is_single c sdef s flags) (sr_score s) final_score)"

text \<open>
  \<^verbatim>\<open>next_gf\<close> and the result of the group loop for that value: the group scores and the
  contribution as the loop leaves it.
\<close>

definition insert_next_gf ::
  "rspamd_config \<Rightarrow> rspamd_task \<Rightarrow> rspamd_metric_result \<Rightarrow> string \<Rightarrow> gdouble \<Rightarrow>
   rspamd_symbol_insert_flag set \<Rightarrow> gdouble" where
  "insert_next_gf c task m symbol weight flags =
     snd (handle_grow_factor (grow_factor m) (cfg_grow_factor c)
            (insert_diff c task m symbol weight flags))"

definition clamped_diff ::
  "rspamd_config \<Rightarrow> rspamd_task \<Rightarrow> rspamd_metric_result \<Rightarrow> string \<Rightarrow> gdouble \<Rightarrow>
   rspamd_symbol_insert_flag set \<Rightarrow> error + ((rspamd_symbols_group \<rightharpoonup> gdouble) \<times> gdouble)" where
  "clamped_diff c task m symbol weight flags =
     check_symbol_groups (cfg_symbols c symbol)
       (sym_groups (ensure_symbol_groups (cfg_symbols c symbol) m))
       (fst (handle_grow_factor (grow_factor m) (cfg_grow_factor c)
               (insert_diff c task m symbol weight flags)))"

text \<open>
  The calls that leave \<^verbatim>\<open>score\<close> and \<^verbatim>\<open>grow_factor\<close> unwritten: a repeat hit whose
  \<^verbatim>\<open>diff\<close> is zero, and a contribution that the group loop turned into NaN.
\<close>

definition contribution_kept_out ::
  "rspamd_config \<Rightarrow> rspamd_task \<Rightarrow> rspamd_metric_result \<Rightarrow> string \<Rightarrow> gdouble \<Rightarrow>
   rspamd_symbol_insert_flag set \<Rightarrow> gdouble \<Rightarrow> bool" where
  "contribution_kept_out c task m symbol weight flags d =
     ((map_of (symbols m) symbol \<noteq> None \<and>
       \<not> nonzero (insert_diff c task m symbol weight flags)) \<or> isnan d)"

subsection \<open>A concrete configuration\<close>

text \<open>
  The configuration of the scenarios: a grow factor of 1, at most 5 default shots,
  thresholds 10 for reject and 5 for add-header, and a group \<open>g\<close> capped at 7.
\<close>

definition example_group :: rspamd_symbols_group where
  "example_group = \<lparr>gr_name = ''g'', max_score = Fin 7\<rparr>"

definition example_cfg :: rspamd_config where
  "example_cfg =
     \<lparr> cfg_symbols =
         [''A'' \<mapsto> \<lparr>weight_ptr = Fin 3, groups = [], sdef_nshots = 0, sdef_flags = {}\<rparr>,
          ''B'' \<mapsto> \<lparr>weight_ptr = Fin 2, groups = [], sdef_nshots = 10, sdef_flags = {}\<rparr>,
          ''C'' \<mapsto> \<lparr>weight_ptr = Fin 5, groups = [example_group], sdef_nshots = 0,
                     sdef_flags = {}\<rparr>,
          ''N'' \<mapsto> \<lparr>weight_ptr = Fin (- 1), groups = [], sdef_nshots = 0, sdef_flags = {}\<rparr>,
          ''O'' \<mapsto> \<lparr>weight_ptr = Fin 1, groups = [], sdef_nshots = 0,
                     sdef_flags = {RSPAMD_SYMBOL_FLAG_ONEPARAM}\<rparr>],
       actions =
         (\<lambda>i. \<lparr>action = i,
               act_score =
                 (if i = METRIC_ACTION_REJECT then Fin 10
                  else if i = METRIC_ACTION_ADD_HEADER then Fin 5 else NaN)\<rparr>),
       cfg_grow_factor = Fin 1,
       default_max_shots = 5 \<rparr>"

definition example_task :: rspamd_task where
  "example_task =
     with_fresh_result
       \<lparr> cfg = Some example_cfg, settings = None, processed_stages = 0, result = None \<rparr>"

subsection \<open>Observers of a run\<close>

text \<open>What is read off the task a sequence of insert calls ends in.\<close>

definition shots_after :: "error + rspamd_task \<Rightarrow> nat option" where
  "shots_after r = (case r of Inl e \<Rightarrow> None | Inr task \<Rightarrow> map_option total_shots (result task))"

definition grow_factor_after :: "error + rspamd_task \<Rightarrow> gdouble option" where
  "grow_factor_after r =
     (case r of Inl e \<Rightarrow> None | Inr task \<Rightarrow> map_option grow_factor (result task))"

definition symbol_after :: "error + rspamd_task \<Rightarrow> string \<Rightarrow> rspamd_symbol_result option" where
  "symbol_after r symbol =
     (case r of Inl e \<Rightarrow> None | Inr task \<Rightarrow> rspamd_task_find_symbol_result task symbol)"

definition group_score_after ::
  "error + rspamd_task \<Rightarrow> rspamd_symbols_group \<Rightarrow> gdouble option" where
  "group_score_after r g =
     (case r of
        Inl e \<Rightarrow> None
      | Inr task \<Rightarrow> (case result task of None \<Rightarrow> None | Some m \<Rightarrow> sym_groups m g))"

text \<open>What a further insert call would do with its contribution.\<close>

definition contribution_after :: "error + rspamd_task \<Rightarrow> insert_call \<Rightarrow> contribution option" where
  "contribution_after r call =
     (case r of
        Inl e \<Rightarrow> None
      | Inr task \<Rightarrow>
          (case call of
             Insert_call symbol weight opt flags \<Rightarrow>
               (case insert_metric_result_contribution task symbol weight opt flags of
                  Inl e \<Rightarrow> None
                | Inr (s, task', k) \<Rightarrow> Some k)))"

subsection \<open>More concrete tasks\<close>

text \<open>The example configuration with a grow factor of 2.\<close>

definition grow_task :: rspamd_task where
  "grow_task =
     with_fresh_result
       \<lparr> cfg = Some (example_cfg\<lparr>cfg_grow_factor := Fin 2\<rparr>), settings = None,
         processed_stages = 0, result = None \<rparr>"

text \<open>
  The example task with an accumulated score of 2 and two passthrough results, the one
  of priority 20 at the head.
\<close>

definition passthrough_task :: rspamd_task where
  "passthrough_task =
     example_task\<lparr>result := Some ((rspamd_create_metric_result example_task)
       \<lparr>score := Fin 2,
        passthrough_result :=
          [\<lparr>pr_action = METRIC_ACTION_NOACTION, priority = 20, target_score = Fin 1,
            message = ''m2'', module = ''mod''\<rparr>,
           \<lparr>pr_action = METRIC_ACTION_REJECT, priority = 10, target_score = NaN,
            message = ''m1'', module = ''mod''\<rparr>]\<rparr>)\<rparr>"

text \<open>The example task after one hit of \<open>A\<close> with weight 1.\<close>

definition hit_once_task :: rspamd_task where
  "hit_once_task =
     example_task\<lparr>result := Some ((rspamd_create_metric_result example_task)
       \<lparr>score := Fin 3, grow_factor := Fin 1, npositive := 1, positive_score := Fin 3,
        symbols := [(''A'', \<lparr>sr_score = Fin 3, options = None, opts_head = [],
                            sr_name = ''A'', sym = cfg_symbols example_cfg ''A'',
                            nshots = 1\<rparr>)]\<rparr>)\<rparr>"


text \<open>
  A group capped at 9000 with two members of weight 1, in the example configuration.
\<close>

definition capped_group :: rspamd_symbols_group where
  "capped_group = \<lparr>gr_name = ''capped'', max_score = Fin 9000\<rparr>"

definition capped_task :: rspamd_task where
  "capped_task =
     with_fresh_result
       \<lparr> cfg = Some (example_cfg\<lparr>cfg_symbols :=
                  [''NEG'' \<mapsto> \<lparr>weight_ptr = Fin 1, groups = [capped_group], sdef_nshots = 0,
                                sdef_flags = {}\<rparr>,
                   ''POS'' \<mapsto> \<lparr>weight_ptr = Fin 1, groups = [capped_group], sdef_nshots = 0,
                                sdef_flags = {}\<rparr>]\<rparr>),
         settings = None, processed_stages = 0, result = None \<rparr>"

text \<open>
  The task with a grow factor of 2 after the hits \<open>A\<close>, \<open>N\<close> with weight 0 and \<open>A\<close>:
  the score of \<open>N\<close> is \<^verbatim>\<open>-1.0 * 0.0\<close>, that is \<^verbatim>\<open>-0.0\<close>.
\<close>

definition signed_zero_result :: rspamd_metric_result where
  "signed_zero_result =
     (rspamd_create_metric_result grow_task)
       \<lparr>score := Fin 6, grow_factor := Fin 2, npositive := 1, positive_score := Fin 3,
        symbols := [(''A'', \<lparr>sr_score = Fin 6, options = None, opts_head = [],
                            sr_name = ''A'', sym = cfg_symbols example_cfg ''A'',
                            nshots = 2\<rparr>),
                    (''N'', \<lparr>sr_score = NZero, options = None, opts_head = [],
                            sr_name = ''N'', sym = cfg_symbols example_cfg ''N'',
                            nshots = 1\<rparr>)]\<rparr>"

definition signed_zero_task :: rspamd_task where
  "signed_zero_task = grow_task\<lparr>result := Some signed_zero_result\<rparr>"

text \<open>A configuration whose reject and add-header thresholds are both 5.\<close>

definition tie_cfg :: rspamd_config where
  "tie_cfg =
     example_cfg\<lparr>actions :=
       (\<lambda>i. \<lparr>action = i,
             act_score =
               (if i = METRIC_ACTION_REJECT \<or> i = METRIC_ACTION_ADD_HEADER then Fin 5
                else NaN)\<rparr>)\<rparr>"

definition tie_task :: rspamd_task where
  "tie_task =
     with_fresh_result
       \<lparr> cfg = Some tie_cfg, settings = None, processed_stages = 0, result = None \<rparr>"

definition tie_result :: rspamd_metric_result where
  "tie_result = (rspamd_create_metric_result tie_task)\<lparr>score := Fin 6\<rparr>"

subsection \<open>The action selection, stated declaratively\<close>

text \<open>
  A slot qualifies when its threshold is not NaN and the score reaches it. The loop of
  \<^verbatim>\<open>rspamd_check_action_metric\<close> starts from \<^verbatim>\<open>max_score = -G_MAXDOUBLE\<close> and replaces
  the selection only by a strictly larger threshold, so a slot can be selected only if
  its threshold is above \<^verbatim>\<open>-G_MAXDOUBLE\<close>.
\<close>

definition qualifies :: "rspamd_metric_result \<Rightarrow> rspamd_action_type \<Rightarrow> bool" where
  "qualifies mres i =
     (\<not> isnan (actions_limits mres i) \<and> dge (score mres) (actions_limits mres i))"

definition selectable :: "rspamd_metric_result \<Rightarrow> rspamd_action_type \<Rightarrow> bool" where
  "selectable mres i =
     (qualifies mres i \<and> dgt (actions_limits mres i) (dneg G_MAXDOUBLE))"

definition largest_threshold ::
  "rspamd_metric_result \<Rightarrow> rspamd_action_type list \<Rightarrow> rspamd_action_type \<Rightarrow> bool" where
  "largest_threshold mres q i =
     (\<forall>j \<in> set q. dle (actions_limits mres j) (actions_limits mres i))"

text \<open>
  The selection as the specification words it: among the qualifying slots the one with
  the largest threshold, on a tie the last one encountered, and no-action when no slot
  qualifies.
\<close>

definition claimed_action ::
  "rspamd_config \<Rightarrow> rspamd_metric_result \<Rightarrow> rspamd_action_type" where
  "claimed_action c mres =
     (let q = filter (qualifies mres) action_slots in
      case find (largest_threshold mres q) (rev q) of
        None \<Rightarrow> METRIC_ACTION_NOACTION
      | Some i \<Rightarrow> action (actions c i))"

text \<open>
  The selection with the first slot winning a tie, among the slots that can be selected.
\<close>

definition selected_action ::
  "rspamd_config \<Rightarrow> rspamd_metric_result \<Rightarrow> rspamd_action_type" where
  "selected_action c mres =
     (let q = filter (selectable mres) action_slots in
      case find (largest_threshold mres q) q of
        None \<Rightarrow> METRIC_ACTION_NOACTION
      | Some i \<Rightarrow> action (actions c i))"

text \<open>The slots the loop can still select when \<^verbatim>\<open>max_score\<close> is \<open>mx\<close>.\<close>

definition beats :: "rspamd_metric_result \<Rightarrow> gdouble \<Rightarrow> rspamd_action_type \<Rightarrow> bool" where
  "beats mres mx i = (qualifies mres i \<and> dgt (actions_limits mres i) mx)"

section \<open>Properties\<close>

subsection \<open>Rounding\<close>

lemma round_half_even_int: "round_half_even (of_int k) = k"
  by (simp add: round_half_even_def)

lemma ilog2_int: "0 < n \<Longrightarrow> ilog2 (of_int n) = bitlen n - 1"
  by (simp add: ilog2_def)

lemma round_magnitude_int:
  assumes "0 < n" and "n < 2 ^ 53"
  shows "round_magnitude (of_int n) = of_int n"
proof -
  define e where "e = bitlen n - 1"
  define k where "k = nat (52 - e)"
  have b: "2 ^ nat e \<le> n"
    using bitlen_bounds[OF assms(1)] by (simp add: e_def)
  have e0: "0 \<le> e" using assms(1) by (simp add: e_def bitlen_alt_def)
  have "(2::int) ^ nat e < 2 ^ 53" by (rule le_less_trans[OF b assms(2)])
  then have "nat e < 53" by (rule power_less_imp_less_exp[rotated]) simp
  then have e52: "e \<le> 52" by simp
  have m: "max e (- 1022) = e" using e0 by simp
  have u: "pow2 (e - 52) = 1 / 2 ^ k"
    using e52 by (cases "e = 52") (simp_all add: pow2_def k_def)
  have "of_int n / pow2 (e - 52) = (of_int (n * 2 ^ k) :: real)"
    unfolding u by simp
  then have r: "round_half_even (of_int n / pow2 (e - 52)) = n * 2 ^ k"
    by (simp only: round_half_even_int)
  have "round_magnitude (of_int n) =
      of_int (round_half_even (of_int n / pow2 (e - 52))) * pow2 (e - 52)"
    unfolding round_magnitude_def Let_def ilog2_int[OF assms(1)] e_def[symmetric] m
    by (rule refl)
  also have "\<dots> = of_int (n * 2 ^ k) * pow2 (e - 52)" by (simp only: r)
  also have "\<dots> = of_int (n * 2 ^ k) * (1 / 2 ^ k)" by (simp only: u)
  also have "\<dots> = of_int n" by simp
  finally show ?thesis .
qed

text \<open>An integer below \<open>2 ^ 53\<close> in magnitude is a double.\<close>

lemma round_double_int:
  assumes "x \<in> \<int>" and "x \<noteq> 0" and "\<bar>x\<bar> < 2 ^ 53"
  shows "round_double x = Fin x"
proof -
  from assms(1) obtain k where k: "x = of_int k" by (auto elim: Ints_cases)
  have k0: "0 < \<bar>k\<bar>" using assms(2) k by simp
  have k53: "\<bar>k\<bar> < 2 ^ 53"
  proof -
    have "(of_int \<bar>k\<bar> :: real) < of_int (2 ^ 53)" using assms(3) k by simp
    then show ?thesis by (simp only: of_int_less_iff)
  qed
  have "\<bar>x\<bar> = of_int \<bar>k\<bar>" using k by simp
  then have m: "round_magnitude \<bar>x\<bar> = \<bar>x\<bar>"
    using round_magnitude_int[OF k0 k53] by simp
  have "\<bar>x\<bar> < pow2 1024"
  proof -
    have "(2::real) ^ 53 \<le> 2 ^ 1024" by (rule power_increasing) simp_all
    then show ?thesis using assms(3) by (simp add: pow2_def)
  qed
  then show ?thesis
    using assms(2) by (auto simp: round_double_def m Let_def)
qed

text \<open>The doubles around \<open>10 ^ 20\<close>, where neighbouring doubles are 16384 apart.\<close>

lemma round_double_1e20: "round_double 100000000000000000000 = Fin 100000000000000000000"
  by code_simp

lemma round_double_minus_1e20:
  "round_double (- 100000000000000000000) = Fin (- 100000000000000000000)"
  by code_simp

lemma round_double_2e20: "round_double 200000000000000000000 = Fin 200000000000000000000"
  by code_simp

lemma round_double_1e20_9000:
  "round_double 100000000000000009000 = Fin 100000000000000016384"
  by code_simp

lemma round_double_1e20_16384:
  "round_double 100000000000000016384 = Fin 100000000000000016384"
  by code_simp

lemmas round_defs =
  sum_double_def product_double_def round_double_int round_double_1e20
  round_double_minus_1e20 round_double_2e20 round_double_1e20_9000 round_double_1e20_16384

subsection \<open>Counters\<close>

lemma unat_succ:
  fixes x :: "32 word"
  shows "unat x < 4294967295 \<Longrightarrow> unat (x + 1) = Suc (unat x)"
  by (simp add: unat_word_ariths)

subsection \<open>Group hash\<close>

lemma ensure_groups_dom: "dom (ensure_groups grs sg) = dom sg \<union> set grs"
  by (induction grs arbitrary: sg) (auto split: option.splits)

lemma check_groups_total:
  "set grs \<subseteq> dom sg \<Longrightarrow> \<exists>sg' d'. check_groups grs sg d = Inr (sg', d')"
proof (induction grs arbitrary: sg d)
  case Nil
  then show ?case by simp
next
  case (Cons gr grs)
  then obtain v where v: "sg gr = Some v" by auto
  show ?case
  proof (cases "isnan (rspamd_check_group_score (Some gr) (Some v) d)")
    case True
    then show ?thesis using v by simp
  next
    case False
    let ?sg = "sg(gr \<mapsto> dadd v (rspamd_check_group_score (Some gr) (Some v) d))"
    let ?d = "if dlt (rspamd_check_group_score (Some gr) (Some v) d) d
              then rspamd_check_group_score (Some gr) (Some v) d else d"
    have "set grs \<subseteq> dom ?sg"
      using Cons.prems by auto
    then have "\<exists>sg' d'. check_groups grs ?sg ?d = Inr (sg', d')"
      by (rule Cons.IH)
    moreover have "check_groups (gr # grs) sg d = check_groups grs ?sg ?d"
      using v False by (simp add: Let_def)
    ultimately show ?thesis by simp
  qed
qed

lemma check_groups_dom:
  "check_groups grs sg d = Inr (sg', d') \<Longrightarrow> dom sg' = dom sg"
proof (induction grs arbitrary: sg d)
  case Nil
  then show ?case by simp
next
  case (Cons gr grs)
  then show ?case
    by (auto simp: Let_def split: option.splits if_splits)
qed

lemma check_symbol_groups_total:
  "(\<And>d. sdef = Some d \<Longrightarrow> set (groups d) \<subseteq> dom sg) \<Longrightarrow>
   \<exists>sg' d'. check_symbol_groups sdef sg x = Inr (sg', d')"
  by (cases sdef) (auto simp: check_symbol_groups_def intro: check_groups_total)

subsection \<open>Options\<close>

lemma add_option_total:
  "cfg task = Some c \<Longrightarrow>
   \<exists>ret s'. rspamd_task_add_result_option task (Some s) opt = Inr (ret, Some s')"
  by (cases opt) (auto simp: rspamd_task_add_result_option_def split: option.splits)

lemma add_option_frame:
  "rspamd_task_add_result_option task (Some s) opt = Inr (ret, s') \<Longrightarrow>
   \<exists>r. s' = Some r \<and> nshots r = nshots s \<and> sr_score r = sr_score s \<and> sym r = sym s
       \<and> sr_name r = sr_name s"
  by (cases opt)
     (auto simp: rspamd_task_add_result_option_def new_options_def
           split: option.splits if_splits)

lemma repeat_options_total:
  "cfg task = Some c \<Longrightarrow> \<exists>s1. repeat_options task s opt = Inr s1"
proof -
  assume c: "cfg task = Some c"
  obtain r1 x1 where 1: "rspamd_task_add_result_option task (Some s) opt = Inr (r1, Some x1)"
    using add_option_total[OF c] by blast
  obtain r2 x2 where 2: "rspamd_task_add_result_option task (Some (s\<lparr>nshots := nshots s + 1\<rparr>)) opt
      = Inr (r2, Some x2)"
    using add_option_total[OF c] by blast
  show ?thesis
    using 1 2 by (auto simp: repeat_options_def split: option.splits)
qed

lemma repeat_options_frame:
  assumes "repeat_options task s opt = Inr s1"
  shows "(nshots s1 = nshots s \<or> nshots s1 = nshots s + 1) \<and> sr_score s1 = sr_score s \<and> sym s1 = sym s \<and> sr_name s1 = sr_name s"
proof (cases "\<exists>v os. opt = Some v \<and> options s = Some os \<and> v |\<in>| os")
  case True
  then show ?thesis using assms by (auto simp: repeat_options_def)
next
  case False
  show ?thesis
  proof (cases "\<exists>v os. opt = Some v \<and> options s = Some os")
    case True
    then obtain ret s' where "rspamd_task_add_result_option task (Some s) opt = Inr (ret, s')"
      using assms False by (auto simp: repeat_options_def split: sum.splits)
    moreover from add_option_frame[OF this] obtain r where "s' = Some r" "nshots r = nshots s"
      "sr_score r = sr_score s" "sym r = sym s" "sr_name r = sr_name s" by blast
    ultimately show ?thesis using assms True False by (auto simp: repeat_options_def)
  next
    case F2: False
    then obtain ret s' where a: "rspamd_task_add_result_option task (Some (s\<lparr>nshots := nshots s + 1\<rparr>)) opt = Inr (ret, s')"
      using assms by (auto simp: repeat_options_def split: sum.splits option.splits)
    from add_option_frame[OF this] obtain r where "s' = Some r" "nshots r = nshots s + 1"
      "sr_score r = sr_score s" "sym r = sym s" "sr_name r = sr_name s" by auto
    then show ?thesis using assms F2 a by (auto simp: repeat_options_def split: option.splits)
  qed
qed

subsection \<open>The two branches\<close>

lemma repeat_hit_unfold:
  assumes s1: "repeat_options task s opt = Inr s1"
    and h: "handle_grow_factor (grow_factor m) (cfg_grow_factor c)
              (adjust_diff (is_single c sdef s flags) (sr_score s1) fs) = (d1, gf)"
    and g: "check_symbol_groups sdef (sym_groups m) d1 = Inr (sg, d2)"
  shows "repeat_hit task c m sdef s fs opt flags =
     (if nonzero (adjust_diff (is_single c sdef s flags) (sr_score s1) fs) then
        if \<not> isnan d2 then
          Inr (if is_single c sdef s flags then s1\<lparr>sr_score := fs\<rparr>
               else s1\<lparr>sr_score := dadd (sr_score s1) d2\<rparr>,
               m\<lparr>score := dadd (score m) d2, grow_factor := gf, sym_groups := sg\<rparr>,
               Applied (adjust_diff (is_single c sdef s flags) (sr_score s1) fs) d2)
        else Inr (s1, m\<lparr>sym_groups := sg\<rparr>, Dropped)
      else Inr (s1, m, Skipped))"
  unfolding repeat_hit_def Let_def s1 h g sum.case prod.case by (rule refl)

lemma repeat_hit_elim:
  assumes r: "repeat_hit task c m sdef s fs opt flags = Inr (s', m', k)"
  obtains
    (skipped) s1 where "repeat_options task s opt = Inr s1"
      "\<not> nonzero (adjust_diff (is_single c sdef s flags) (sr_score s1) fs)"
      "s' = s1" "m' = m" "k = Skipped"
  | (dropped) s1 d1 gf sg d2 where "repeat_options task s opt = Inr s1"
      "nonzero (adjust_diff (is_single c sdef s flags) (sr_score s1) fs)"
      "handle_grow_factor (grow_factor m) (cfg_grow_factor c)
         (adjust_diff (is_single c sdef s flags) (sr_score s1) fs) = (d1, gf)"
      "check_symbol_groups sdef (sym_groups m) d1 = Inr (sg, d2)"
      "isnan d2" "s' = s1" "m' = m\<lparr>sym_groups := sg\<rparr>" "k = Dropped"
  | (applied) s1 d1 gf sg d2 where "repeat_options task s opt = Inr s1"
      "nonzero (adjust_diff (is_single c sdef s flags) (sr_score s1) fs)"
      "handle_grow_factor (grow_factor m) (cfg_grow_factor c)
         (adjust_diff (is_single c sdef s flags) (sr_score s1) fs) = (d1, gf)"
      "check_symbol_groups sdef (sym_groups m) d1 = Inr (sg, d2)"
      "\<not> isnan d2"
      "s' = (if is_single c sdef s flags then s1\<lparr>sr_score := fs\<rparr>
             else s1\<lparr>sr_score := dadd (sr_score s1) d2\<rparr>)"
      "m' = m\<lparr>score := dadd (score m) d2, grow_factor := gf, sym_groups := sg\<rparr>"
      "k = Applied (adjust_diff (is_single c sdef s flags) (sr_score s1) fs) d2"
proof (cases "repeat_options task s opt")
  case (Inl e)
  then have "repeat_hit task c m sdef s fs opt flags = Inl e"
    unfolding repeat_hit_def Let_def by (simp only: sum.case)
  then show ?thesis using r by simp
next
  case (Inr s1)
  let ?diff = "adjust_diff (is_single c sdef s flags) (sr_score s1) fs"
  show ?thesis
  proof (cases "nonzero ?diff")
    case False
    have "repeat_hit task c m sdef s fs opt flags = Inr (s1, m, Skipped)"
      unfolding repeat_hit_def Let_def Inr sum.case using False by (simp only: if_False)
    then show ?thesis using r Inr False skipped by simp
  next
    case True
    obtain d1 gf where h: "handle_grow_factor (grow_factor m) (cfg_grow_factor c) ?diff = (d1, gf)"
      by (cases "handle_grow_factor (grow_factor m) (cfg_grow_factor c) ?diff") auto
    show ?thesis
    proof (cases "check_symbol_groups sdef (sym_groups m) d1")
      case (Inl e)
      have "repeat_hit task c m sdef s fs opt flags = Inl e"
        unfolding repeat_hit_def Let_def \<open>repeat_options task s opt = Inr s1\<close> h Inl
          sum.case prod.case
        using True by (simp only: if_True)
      then show ?thesis using r by simp
    next
      case g: (Inr p)
      obtain sg d2 where p: "p = (sg, d2)" by (cases p) auto
      note u = repeat_hit_unfold[OF Inr h g[unfolded p]]
      show ?thesis
      proof (cases "isnan d2")
        case nan: True
        have "repeat_hit task c m sdef s fs opt flags = Inr (s1, m\<lparr>sym_groups := sg\<rparr>, Dropped)"
          using u True nan by (simp only: if_True if_False not_True_eq_False)
        then show ?thesis using r dropped[OF Inr True h g[unfolded p] nan] by simp
      next
        case nn: False
        have "repeat_hit task c m sdef s fs opt flags =
          Inr (if is_single c sdef s flags then s1\<lparr>sr_score := fs\<rparr>
               else s1\<lparr>sr_score := dadd (sr_score s1) d2\<rparr>,
               m\<lparr>score := dadd (score m) d2, grow_factor := gf, sym_groups := sg\<rparr>,
               Applied ?diff d2)"
          using u True nn by (simp only: if_True if_False not_False_eq_True)
        then show ?thesis using r applied[OF Inr True h g[unfolded p] nn] by simp
      qed
    qed
  qed
qed

lemma repeat_hit_total:
  assumes c: "cfg task = Some c"
    and g: "\<And>d. sdef = Some d \<Longrightarrow> set (groups d) \<subseteq> dom (sym_groups m)"
  shows "\<exists>s' m' k. repeat_hit task c m sdef s fs opt flags = Inr (s', m', k)"
proof -
  obtain s1 where s1: "repeat_options task s opt = Inr s1"
    using repeat_options_total[OF c] by blast
  obtain d1 gf where h: "handle_grow_factor (grow_factor m) (cfg_grow_factor c)
      (adjust_diff (is_single c sdef s flags) (sr_score s1) fs) = (d1, gf)"
    by (cases "handle_grow_factor (grow_factor m) (cfg_grow_factor c)
      (adjust_diff (is_single c sdef s flags) (sr_score s1) fs)") auto
  obtain sg d2 where g2: "check_symbol_groups sdef (sym_groups m) d1 = Inr (sg, d2)"
    using check_symbol_groups_total[of sdef "sym_groups m" d1] g by blast
  show ?thesis
    unfolding repeat_hit_unfold[OF s1 h g2]
    by (cases "nonzero (adjust_diff (is_single c sdef s flags) (sr_score s1) fs)";
        cases "isnan d2") simp_all
qed

lemma first_hit_unfold:
  assumes h: "handle_grow_factor (grow_factor m) (cfg_grow_factor c) fs = (d1, gf)"
    and g: "check_symbol_groups sdef (sym_groups m) d1 = Inr (sg, d2)"
    and a: "rspamd_task_add_result_option task
              (Some (if \<not> isnan d2 then (new_symbol_result symbol sdef)\<lparr>sr_score := d2\<rparr>
                     else (new_symbol_result symbol sdef)\<lparr>sr_score := Fin 0\<rparr>)) opt
            = Inr (ret, Some r)"
  shows "first_hit task c m sdef symbol fs opt =
     Inr (r,
          if \<not> isnan d2 then
            update_ledgers (m\<lparr>score := dadd (score m) d2, grow_factor := gf, sym_groups := sg\<rparr>) d2
          else m\<lparr>sym_groups := sg\<rparr>,
          if \<not> isnan d2 then Applied fs d2 else Dropped)"
  unfolding first_hit_def Let_def h g a sum.case prod.case option.case by (rule refl)

lemma first_hit_total:
  assumes c: "cfg task = Some c"
    and g: "\<And>d. sdef = Some d \<Longrightarrow> set (groups d) \<subseteq> dom (sym_groups m)"
  shows "\<exists>s' m' k. first_hit task c m sdef symbol fs opt = Inr (s', m', k)"
proof -
  obtain d1 gf where h: "handle_grow_factor (grow_factor m) (cfg_grow_factor c) fs = (d1, gf)"
    by (cases "handle_grow_factor (grow_factor m) (cfg_grow_factor c) fs") auto
  obtain sg d2 where g2: "check_symbol_groups sdef (sym_groups m) d1 = Inr (sg, d2)"
    using check_symbol_groups_total[of sdef "sym_groups m" d1] g by blast
  obtain ret r where "rspamd_task_add_result_option task
              (Some (if \<not> isnan d2 then (new_symbol_result symbol sdef)\<lparr>sr_score := d2\<rparr>
                     else (new_symbol_result symbol sdef)\<lparr>sr_score := Fin 0\<rparr>)) opt
            = Inr (ret, Some r)"
    using add_option_total[OF c] by blast
  from first_hit_unfold[OF h g2 this] show ?thesis by blast
qed

lemma first_hit_elim:
  assumes r: "first_hit task c m sdef symbol fs opt = Inr (s', m', k)"
  obtains d1 gf sg d2 ret where
    "handle_grow_factor (grow_factor m) (cfg_grow_factor c) fs = (d1, gf)"
    "check_symbol_groups sdef (sym_groups m) d1 = Inr (sg, d2)"
    "rspamd_task_add_result_option task
       (Some (if \<not> isnan d2 then (new_symbol_result symbol sdef)\<lparr>sr_score := d2\<rparr>
              else (new_symbol_result symbol sdef)\<lparr>sr_score := Fin 0\<rparr>)) opt
     = Inr (ret, Some s')"
    "m' = (if \<not> isnan d2 then
            update_ledgers (m\<lparr>score := dadd (score m) d2, grow_factor := gf, sym_groups := sg\<rparr>) d2
          else m\<lparr>sym_groups := sg\<rparr>)"
    "k = (if \<not> isnan d2 then Applied fs d2 else Dropped)"
proof -
  obtain d1 gf where h: "handle_grow_factor (grow_factor m) (cfg_grow_factor c) fs = (d1, gf)"
    by (cases "handle_grow_factor (grow_factor m) (cfg_grow_factor c) fs") auto
  show ?thesis
  proof (cases "check_symbol_groups sdef (sym_groups m) d1")
    case (Inl e)
    have "first_hit task c m sdef symbol fs opt = Inl e"
      unfolding first_hit_def Let_def h Inl sum.case prod.case by (rule refl)
    then show ?thesis using r by simp
  next
    case g: (Inr p)
    obtain sg d2 where p: "p = (sg, d2)" by (cases p) auto
    let ?s1 = "if \<not> isnan d2 then (new_symbol_result symbol sdef)\<lparr>sr_score := d2\<rparr>
               else (new_symbol_result symbol sdef)\<lparr>sr_score := Fin 0\<rparr>"
    show ?thesis
    proof (cases "rspamd_task_add_result_option task (Some ?s1) opt")
      case (Inl e)
      have "first_hit task c m sdef symbol fs opt = Inl e"
        unfolding first_hit_def Let_def h g p Inl sum.case prod.case by (rule refl)
      then show ?thesis using r by simp
    next
      case a: (Inr q)
      obtain ret x where q: "q = (ret, x)" by (cases q) auto
      from add_option_frame[OF a[unfolded q]] obtain r' where x: "x = Some r'" by blast
      note u = first_hit_unfold[OF h g[unfolded p] a[unfolded q x]]
      show ?thesis
        using that[OF h g[unfolded p], of ret] a[unfolded q x] u r by simp
    qed
  qed
qed

lemma update_ledgers_frame:
  "symbols (update_ledgers m x) = symbols m" "sym_groups (update_ledgers m x) = sym_groups m"
  "passthrough_result (update_ledgers m x) = passthrough_result m"
  "actions_limits (update_ledgers m x) = actions_limits m"
  "score (update_ledgers m x) = score m" "grow_factor (update_ledgers m x) = grow_factor m"
  by (simp_all add: update_ledgers_def)

lemma repeat_hit_frame:
  assumes r: "repeat_hit task c m sdef s fs opt flags = Inr (s', m', k)"
  shows "nshots s' = nshots s \<or> nshots s' = nshots s + 1"
    and "symbols m' = symbols m"
    and "npositive m' = npositive m" and "nnegative m' = nnegative m"
    and "positive_score m' = positive_score m" and "negative_score m' = negative_score m"
    and "passthrough_result m' = passthrough_result m"
    and "actions_limits m' = actions_limits m"
proof -
  have "(nshots s' = nshots s \<or> nshots s' = nshots s + 1) \<and> symbols m' = symbols m \<and> npositive m' = npositive m \<and>
    nnegative m' = nnegative m \<and> positive_score m' = positive_score m \<and>
    negative_score m' = negative_score m \<and> passthrough_result m' = passthrough_result m \<and>
    actions_limits m' = actions_limits m"
    using r
  proof (cases rule: repeat_hit_elim)
    case (skipped s1)
    then show ?thesis using repeat_options_frame[of task s opt s1] by auto
  next
    case (dropped s1 d1 gf sg d2)
    then show ?thesis
      using repeat_options_frame[of task s opt s1] by auto
  next
    case (applied s1 d1 gf sg d2)
    then show ?thesis
      using repeat_options_frame[of task s opt s1] by auto
  qed
  then show "nshots s' = nshots s \<or> nshots s' = nshots s + 1" "symbols m' = symbols m"
    "npositive m' = npositive m" "nnegative m' = nnegative m"
    "positive_score m' = positive_score m" "negative_score m' = negative_score m"
    "passthrough_result m' = passthrough_result m"
    "actions_limits m' = actions_limits m"
    by simp_all
qed

lemma first_hit_frame:
  assumes r: "first_hit task c m sdef symbol fs opt = Inr (s', m', k)"
  shows "nshots s' = 1"
    and "symbols m' = symbols m"
    and "passthrough_result m' = passthrough_result m"
    and "actions_limits m' = actions_limits m"
proof -
  from r obtain d1 gf sg d2 ret where
    g: "check_symbol_groups sdef (sym_groups m) d1 = Inr (sg, d2)"
    and a: "rspamd_task_add_result_option task
       (Some (if \<not> isnan d2 then (new_symbol_result symbol sdef)\<lparr>sr_score := d2\<rparr>
              else (new_symbol_result symbol sdef)\<lparr>sr_score := Fin 0\<rparr>)) opt
     = Inr (ret, Some s')"
    and m': "m' = (if \<not> isnan d2 then
            update_ledgers (m\<lparr>score := dadd (score m) d2, grow_factor := gf, sym_groups := sg\<rparr>) d2
          else m\<lparr>sym_groups := sg\<rparr>)"
    by (rule first_hit_elim)
  show "nshots s' = 1"
    using add_option_frame[OF a] by (auto simp: new_symbol_result_def split: if_splits)
  show "symbols m' = symbols m" "passthrough_result m' = passthrough_result m"
    "actions_limits m' = actions_limits m"
    using m' by (simp_all add: update_ledgers_frame)
qed

subsection \<open>Insertion\<close>

lemma ensure_symbol_groups_frame:
  "symbols (ensure_symbol_groups sdef m) = symbols m"
  "score (ensure_symbol_groups sdef m) = score m"
  "grow_factor (ensure_symbol_groups sdef m) = grow_factor m"
  "npositive (ensure_symbol_groups sdef m) = npositive m"
  "nnegative (ensure_symbol_groups sdef m) = nnegative m"
  "positive_score (ensure_symbol_groups sdef m) = positive_score m"
  "negative_score (ensure_symbol_groups sdef m) = negative_score m"
  "passthrough_result (ensure_symbol_groups sdef m) = passthrough_result m"
  "actions_limits (ensure_symbol_groups sdef m) = actions_limits m"
  by (cases sdef; simp add: ensure_symbol_groups_def)+

lemma ensure_symbol_groups_dom:
  "sdef = Some d \<Longrightarrow> set (groups d) \<subseteq> dom (sym_groups (ensure_symbol_groups sdef m))"
  by (simp add: ensure_symbol_groups_def ensure_groups_dom)

lemma insert_unfold:
  assumes c: "cfg task = Some c" and m: "result task = Some m"
  shows "insert_metric_result_contribution task symbol weight opt flags =
     (case hit task c m symbol weight opt flags of
        Inl e \<Rightarrow> Inl e
      | Inr (s', m', k) \<Rightarrow>
          Inr (s', task\<lparr>result := Some (m'\<lparr>symbols := AList.update symbol s' (symbols m')\<rparr>)\<rparr>, k))"
  unfolding insert_metric_result_contribution_def hit_def Let_def c m option.case
    ensure_symbol_groups_frame
  by (rule refl)

lemma hit_total:
  assumes c: "cfg task = Some c"
  shows "\<exists>s' m' k. hit task c m symbol weight opt flags = Inr (s', m', k)"
proof (cases "map_of (symbols m) symbol")
  case None
  then show ?thesis
    unfolding hit_def using first_hit_total[OF c ensure_symbol_groups_dom] by simp
next
  case (Some s)
  then show ?thesis
    unfolding hit_def using repeat_hit_total[OF c ensure_symbol_groups_dom] by simp
qed

lemma insert_total:
  assumes c: "cfg task = Some c" and m: "result task = Some m"
  shows "\<exists>s' task' k. insert_metric_result_contribution task symbol weight opt flags
           = Inr (s', task', k)"
proof -
  obtain s' m' k where "hit task c m symbol weight opt flags = Inr (s', m', k)"
    using hit_total[OF c] by blast
  then show ?thesis unfolding insert_unfold[OF c m] by simp
qed

lemma insert_elim:
  assumes i: "insert_metric_result_contribution task symbol weight opt flags = Inr (s', task', k)"
  obtains c m m' where "cfg task = Some c" "result task = Some m"
    "hit task c m symbol weight opt flags = Inr (s', m', k)"
    "task' = task\<lparr>result := Some (m'\<lparr>symbols := AList.update symbol s' (symbols m')\<rparr>)\<rparr>"
proof -
  obtain c where c: "cfg task = Some c"
    using i by (cases "cfg task") (simp_all add: insert_metric_result_contribution_def)
  obtain m where m: "result task = Some m"
    using i c by (cases "result task") (simp_all add: insert_metric_result_contribution_def)
  show ?thesis
  proof (cases "hit task c m symbol weight opt flags")
    case (Inl e)
    then show ?thesis using i unfolding insert_unfold[OF c m] by simp
  next
    case (Inr p)
    obtain a b d where p: "p = (a, b, d)" by (cases p) auto
    show ?thesis
      using i that[OF c m, of b] Inr unfolding insert_unfold[OF c m] p by auto
  qed
qed

lemma hit_frame:
  assumes h: "hit task c m symbol weight opt flags = Inr (s', m', k)"
  shows "symbols m' = symbols m"
    and "passthrough_result m' = passthrough_result m"
    and "actions_limits m' = actions_limits m"
    and "shots_bounded n m \<Longrightarrow> n < 4294967295 \<Longrightarrow>
         1 \<le> unat (nshots s') \<and> unat (nshots s') \<le> Suc n"
proof -
  let ?sdef = "cfg_symbols c symbol"
  let ?m0 = "ensure_symbol_groups ?sdef m"
  let ?fs = "base_score ?sdef (settings task) symbol (sanitize_weight weight) flags"
  have "symbols m' = symbols m \<and> passthrough_result m' = passthrough_result m \<and>
      actions_limits m' = actions_limits m \<and>
      (shots_bounded n m \<longrightarrow> n < 4294967295 \<longrightarrow>
         1 \<le> unat (nshots s') \<and> unat (nshots s') \<le> Suc n)"
  proof (cases "map_of (symbols m) symbol")
    case None
    then have f: "first_hit task c ?m0 ?sdef symbol ?fs opt = Inr (s', m', k)"
      using h by (simp add: hit_def)
    show ?thesis
      using first_hit_frame[OF f] by (simp add: ensure_symbol_groups_frame)
  next
    case (Some s)
    then have f: "repeat_hit task c ?m0 ?sdef s ?fs opt flags = Inr (s', m', k)"
      using h by (simp add: hit_def)
    have b: "1 \<le> unat (nshots s') \<and> unat (nshots s') \<le> Suc n"
      if sb: "shots_bounded n m" and n: "n < 4294967295"
    proof -
      have s: "1 \<le> unat (nshots s)" "unat (nshots s) \<le> n"
        using Some sb by (auto simp: shots_bounded_def)
      then have "unat (nshots s + 1) = Suc (unat (nshots s))"
        using n by (intro unat_succ) simp
      then show ?thesis
        using repeat_hit_frame(1)[OF f] s by auto
    qed
    show ?thesis
      using repeat_hit_frame(2-)[OF f] b by (simp add: ensure_symbol_groups_frame)
  qed
  then show "symbols m' = symbols m" "passthrough_result m' = passthrough_result m"
    "actions_limits m' = actions_limits m"
    "shots_bounded n m \<Longrightarrow> n < 4294967295 \<Longrightarrow>
       1 \<le> unat (nshots s') \<and> unat (nshots s') \<le> Suc n"
    by simp_all
qed

subsection \<open>The invariant\<close>

lemma insert_step:
  assumes c: "cfg task = Some c" and m: "result task = Some m"
  shows "\<exists>s' m' k.
     insert_metric_result_contribution task symbol weight opt flags =
       Inr (s', task\<lparr>result := Some m'\<rparr>, k) \<and>
     hit task c m symbol weight opt flags = Inr (s', m'\<lparr>symbols := symbols m\<rparr>, k) \<and>
     map_of (symbols m') = (map_of (symbols m))(symbol \<mapsto> s')"
proof -
  obtain s' m1 k where h: "hit task c m symbol weight opt flags = Inr (s', m1, k)"
    using hit_total[OF c] by blast
  have "symbols m1 = symbols m" by (rule hit_frame(1)[OF h])
  then have "(m1\<lparr>symbols := AList.update symbol s' (symbols m1)\<rparr>)\<lparr>symbols := symbols m\<rparr> = m1"
    by simp
  then show ?thesis
    using h \<open>symbols m1 = symbols m\<close> unfolding insert_unfold[OF c m]
    by (intro exI[of _ s'] exI[of _ "m1\<lparr>symbols := AList.update symbol s' (symbols m1)\<rparr>"] exI[of _ k])
       (simp add: update_conv')
qed







subsection \<open>Grow factor\<close>

lemma hit_grow_factor:
  assumes h: "hit task c m symbol weight opt flags = Inr (s, m', k)"
  shows "\<exists>sg d. clamped_diff c task m symbol weight flags = Inr (sg, d) \<and>
     grow_factor m' =
       (if contribution_kept_out c task m symbol weight flags d then grow_factor m
        else insert_next_gf c task m symbol weight flags) \<and>
     score m' =
       (if contribution_kept_out c task m symbol weight flags d then score m
        else dadd (score m) d)"
proof (cases "map_of (symbols m) symbol")
  case None
  let ?sdef = "cfg_symbols c symbol"
  have "first_hit task c (ensure_symbol_groups ?sdef m) ?sdef symbol
     (base_score ?sdef (settings task) symbol (sanitize_weight weight) flags) opt = Inr (s, m', k)"
    using h None by (simp add: hit_def)
  then show ?thesis
  proof (cases rule: first_hit_elim)
    case (1 d1 gf sg d2 ret)
    have d: "insert_diff c task m symbol weight flags =
        base_score ?sdef (settings task) symbol (sanitize_weight weight) flags"
      using None by (simp add: insert_diff_def Let_def)
    have "clamped_diff c task m symbol weight flags = Inr (sg, d2)"
      using 1(1,2) by (simp add: clamped_diff_def d ensure_symbol_groups_frame)
    moreover have "insert_next_gf c task m symbol weight flags = gf"
      using 1(1) by (simp add: insert_next_gf_def d ensure_symbol_groups_frame)
    moreover have "contribution_kept_out c task m symbol weight flags d2 = isnan d2"
      using None by (simp add: contribution_kept_out_def)
    ultimately show ?thesis
      using 1(4) by (simp add: ensure_symbol_groups_frame update_ledgers_frame)
  qed
next
  case (Some s0)
  let ?sdef = "cfg_symbols c symbol"
  let ?fs = "base_score ?sdef (settings task) symbol (sanitize_weight weight) flags"
  have r: "repeat_hit task c (ensure_symbol_groups ?sdef m) ?sdef s0 ?fs opt flags
     = Inr (s, m', k)"
    using h Some by (simp add: hit_def)
  have d: "insert_diff c task m symbol weight flags =
      adjust_diff (is_single c ?sdef s0 flags) (sr_score s0) ?fs"
    using Some by (simp add: insert_diff_def Let_def)
  from r show ?thesis
  proof (cases rule: repeat_hit_elim)
    case (skipped s1)
    have e: "sr_score s1 = sr_score s0" using repeat_options_frame[OF skipped(1)] by simp
    obtain sg d' where "clamped_diff c task m symbol weight flags = Inr (sg, d')"
      unfolding clamped_diff_def
      using check_symbol_groups_total[of ?sdef "sym_groups (ensure_symbol_groups ?sdef m)"]
        ensure_symbol_groups_dom[of ?sdef]
      by blast
    moreover have "contribution_kept_out c task m symbol weight flags d'"
      using Some skipped(2) by (simp add: contribution_kept_out_def d e)
    ultimately show ?thesis
      using skipped(4) by (simp add: ensure_symbol_groups_frame)
  next
    case (dropped s1 d1 gf sg d2)
    have e: "sr_score s1 = sr_score s0" using repeat_options_frame[OF dropped(1)] by simp
    have "clamped_diff c task m symbol weight flags = Inr (sg, d2)"
      using dropped(3,4) by (simp add: clamped_diff_def d e ensure_symbol_groups_frame)
    moreover have "contribution_kept_out c task m symbol weight flags d2"
      using dropped(5) by (simp add: contribution_kept_out_def)
    ultimately show ?thesis
      using dropped(7) by (simp add: ensure_symbol_groups_frame)
  next
    case (applied s1 d1 gf sg d2)
    have e: "sr_score s1 = sr_score s0" using repeat_options_frame[OF applied(1)] by simp
    have "clamped_diff c task m symbol weight flags = Inr (sg, d2)"
      using applied(3,4) by (simp add: clamped_diff_def d e ensure_symbol_groups_frame)
    moreover have "insert_next_gf c task m symbol weight flags = gf"
      using applied(3) by (simp add: insert_next_gf_def d e ensure_symbol_groups_frame)
    moreover have "\<not> contribution_kept_out c task m symbol weight flags d2"
      using applied(2,5) by (simp add: contribution_kept_out_def d e)
    ultimately show ?thesis
      using applied(7) by (simp add: ensure_symbol_groups_frame)
  qed
qed

lemma insert_next_gf_not_positive:
  "\<not> dgt (insert_diff c task m symbol weight flags) (Fin 0) \<Longrightarrow>
   insert_next_gf c task m symbol weight flags = Fin 1"
  by (simp add: insert_next_gf_def handle_grow_factor_def)

subsection \<open>The order on doubles\<close>

lemma dle_refl: "\<not> isnan a \<Longrightarrow> dle a a"
  by (cases a) auto

lemma not_dlt_dle: "\<not> isnan a \<Longrightarrow> \<not> isnan b \<Longrightarrow> \<not> dlt a b \<Longrightarrow> dle b a"
  by (cases a; cases b) auto

lemma dlt_dle: "dlt a b \<Longrightarrow> dle a b"
  by (cases a; cases b) auto

lemma dlt_not_dle: "dlt a b \<Longrightarrow> \<not> dle b a"
  by (cases a; cases b) auto

lemma dle_trans: "dle a b \<Longrightarrow> dle b c \<Longrightarrow> dle a c"
  by (cases a; cases b; cases c) auto

lemma dlt_dle_trans: "dlt a b \<Longrightarrow> dle b c \<Longrightarrow> dlt a c"
  by (cases a; cases b; cases c) auto

lemma dlt_trans: "dlt a b \<Longrightarrow> dlt b c \<Longrightarrow> dlt a c"
  by (cases a; cases b; cases c) auto

subsection \<open>The selection loop\<close>

lemma find_filter_eq:
  "(\<And>x. x \<in> set xs \<Longrightarrow> P x \<Longrightarrow> R x = (S x \<and> R' x)) \<Longrightarrow>
   find R (filter P xs) = find R' (filter (\<lambda>x. P x \<and> S x) xs)"
  by (induction xs) auto

lemma largest_exists:
  "q \<noteq> [] \<Longrightarrow> (\<And>j. j \<in> set q \<Longrightarrow> \<not> isnan (actions_limits mres j)) \<Longrightarrow>
   \<exists>i \<in> set q. largest_threshold mres q i"
proof (induction q)
  case Nil
  then show ?case by simp
next
  case (Cons a q)
  show ?case
  proof (cases "q = []")
    case True
    then show ?thesis using Cons.prems by (simp add: largest_threshold_def dle_refl)
  next
    case False
    then obtain i where i: "i \<in> set q" "largest_threshold mres q i"
      using Cons by auto
    show ?thesis
    proof (cases "dlt (actions_limits mres i) (actions_limits mres a)")
      case True
      have "largest_threshold mres (a # q) a"
        unfolding largest_threshold_def
      proof
        fix j assume "j \<in> set (a # q)"
        then show "dle (actions_limits mres j) (actions_limits mres a)"
          using i(2) True Cons.prems(2)[of a]
          by (auto simp: largest_threshold_def dle_refl intro: dle_trans dlt_dle)
      qed
      then show ?thesis by auto
    next
      case False
      then have "dle (actions_limits mres a) (actions_limits mres i)"
        using Cons.prems(2)[of a] Cons.prems(2)[of i] i(1) by (auto intro: not_dlt_dle)
      then have "largest_threshold mres (a # q) i"
        using i(2) by (simp add: largest_threshold_def)
      then show ?thesis using i(1) by auto
    qed
  qed
qed

lemma find_largest_Some:
  assumes "q \<noteq> []" and "\<And>j. j \<in> set q \<Longrightarrow> \<not> isnan (actions_limits mres j)"
  shows "\<exists>i. find (largest_threshold mres q) q = Some i"
proof -
  from largest_exists[OF assms] obtain i where "i \<in> set q" "largest_threshold mres q i"
    by blast
  then have "find (largest_threshold mres q) q \<noteq> None"
    by (auto simp: find_None_iff)
  then show ?thesis by auto
qed

lemma select_action_skip:
  "\<not> beats mres mx i \<Longrightarrow>
   select_action c mres (i # is) (sel, mx) = select_action c mres is (sel, mx)"
  by (auto simp: beats_def qualifies_def Let_def)

lemma select_action_take:
  "beats mres mx i \<Longrightarrow>
   select_action c mres (i # is) (sel, mx) =
   select_action c mres is (Some (actions c i), actions_limits mres i)"
  by (auto simp: beats_def qualifies_def Let_def)

lemma beats_mono:
  "dlt mx mx' \<Longrightarrow> beats mres mx' x \<Longrightarrow> beats mres mx x"
  by (auto simp: beats_def dgt_def intro: dlt_trans)

lemma select_action_char:
  "select_action c mres is (sel, mx) =
     (case find (largest_threshold mres (filter (beats mres mx) is)) (filter (beats mres mx) is) of
        None \<Rightarrow> (sel, mx)
      | Some i \<Rightarrow> (Some (actions c i), actions_limits mres i))"
proof (induction "is" arbitrary: sel mx)
  case Nil
  then show ?case by simp
next
  case (Cons i "is")
  let ?L = "actions_limits mres"
  show ?case
  proof (cases "beats mres mx i")
    case False
    have "filter (beats mres mx) (i # is) = filter (beats mres mx) is"
      using False by simp
    then show ?thesis
      unfolding select_action_skip[OF False] by (simp only: Cons.IH)
  next
    case True
    let ?r = "filter (beats mres mx) is"
    let ?q = "i # ?r"
    let ?q' = "filter (beats mres (?L i)) is"
    have q: "filter (beats mres mx) (i # is) = ?q" using True by simp
    have nni: "\<not> isnan (?L i)" and mxi: "dlt mx (?L i)"
      using True by (auto simp: beats_def qualifies_def dgt_def)
    have nn: "\<not> isnan (?L j)" if "j \<in> set ?q" for j
      using that nni by (auto simp: beats_def qualifies_def)
    have sub: "set ?q' \<subseteq> set ?r"
      using beats_mono[OF mxi] by auto
    have ih: "select_action c mres (i # is) (sel, mx) =
        (case find (largest_threshold mres ?q') ?q' of
           None \<Rightarrow> (Some (actions c i), ?L i)
         | Some j \<Rightarrow> (Some (actions c j), ?L j))"
      unfolding select_action_take[OF True] by (rule Cons.IH)
    show ?thesis
    proof (cases "?q' = []")
      case e: True
      have "largest_threshold mres ?q i"
        unfolding largest_threshold_def
      proof
        fix j assume j: "j \<in> set ?q"
        show "dle (?L j) (?L i)"
        proof (cases "j = i")
          case True
          then show ?thesis using nni by (simp add: dle_refl)
        next
          case False
          then have jr: "j \<in> set is" "beats mres mx j" using j by auto
          have "\<not> beats mres (?L i) j"
            using e jr(1) by (auto simp: filter_empty_conv)
          then have "\<not> dlt (?L i) (?L j)"
            using jr(2) by (auto simp: beats_def dgt_def)
          then show ?thesis using nn[OF j] nni by (auto intro: not_dlt_dle)
        qed
      qed
      then have "find (largest_threshold mres ?q) ?q = Some i" by simp
      then show ?thesis unfolding q ih using e by simp
    next
      case ne: False
      then obtain j' where j': "j' \<in> set ?q'" by (cases ?q') auto
      then have j'q: "j' \<in> set ?q" and ij': "dlt (?L i) (?L j')"
        using sub by (auto simp: beats_def dgt_def)
      have ni: "\<not> largest_threshold mres ?q i"
        using j'q ij' dlt_not_dle unfolding largest_threshold_def by blast
      have B: "largest_threshold mres ?q x = (beats mres (?L i) x \<and> largest_threshold mres ?q' x)"
        if x: "x \<in> set is" "beats mres mx x" for x
      proof
        assume l: "largest_threshold mres ?q x"
        then have "dle (?L j') (?L x)" using j'q unfolding largest_threshold_def by blast
        then have "dlt (?L i) (?L x)" by (rule dlt_dle_trans[OF ij'])
        then have "beats mres (?L i) x" using x(2) by (simp add: beats_def dgt_def)
        moreover have "largest_threshold mres ?q' x"
          using l sub unfolding largest_threshold_def by auto
        ultimately show "beats mres (?L i) x \<and> largest_threshold mres ?q' x" by simp
      next
        assume a: "beats mres (?L i) x \<and> largest_threshold mres ?q' x"
        then have ix: "dle (?L i) (?L x)" by (auto simp: beats_def dgt_def intro: dlt_dle)
        show "largest_threshold mres ?q x"
          unfolding largest_threshold_def
        proof
          fix j assume j: "j \<in> set ?q"
          show "dle (?L j) (?L x)"
          proof (cases "j = i")
            case True
            then show ?thesis using ix by simp
          next
            case False
            then have jr: "j \<in> set is" "beats mres mx j" using j by auto
            show ?thesis
            proof (cases "beats mres (?L i) j")
              case True
              then have "j \<in> set ?q'" using jr(1) by simp
              then show ?thesis using a by (simp add: largest_threshold_def)
            next
              case False
              then have "\<not> dlt (?L i) (?L j)" using jr(2) by (auto simp: beats_def dgt_def)
              then have "dle (?L j) (?L i)" using nn[OF j] nni by (auto intro: not_dlt_dle)
              then show ?thesis using ix by (rule dle_trans)
            qed
          qed
        qed
      qed
      have f1: "find (largest_threshold mres ?q) ?q = find (largest_threshold mres ?q) ?r"
        using ni by simp
      have f2: "find (largest_threshold mres ?q) ?r =
          find (largest_threshold mres ?q')
            (filter (\<lambda>x. beats mres mx x \<and> beats mres (?L i) x) is)"
        by (rule find_filter_eq) (rule B)
      have f3: "filter (\<lambda>x. beats mres mx x \<and> beats mres (?L i) x) is = ?q'"
        using beats_mono[OF mxi] by (auto intro: filter_cong)
      obtain j where fj: "find (largest_threshold mres ?q') ?q' = Some j"
        using find_largest_Some[OF ne, of mres] by (auto simp: beats_def qualifies_def)
      show ?thesis unfolding q ih f1 f2 f3 fj by simp
    qed
  qed
qed

lemma beats_selectable: "beats mres (dneg G_MAXDOUBLE) = selectable mres"
  by (auto simp: beats_def selectable_def)

subsection \<open>Unfolding for evaluation\<close>

lemmas example_defs =
  example_task_def example_cfg_def example_group_def with_fresh_result_def
  rspamd_create_metric_result_def

lemmas insert_defs =
  insert_metric_result_def insert_metric_result_contribution_def
  rspamd_task_insert_result_full_def idempotent_phase_def first_hit_def repeat_hit_def
  repeat_options_def rspamd_task_add_result_option_def new_options_def is_oneparam_def
  is_single_def adjust_diff_def handle_grow_factor_def check_symbol_groups_def
  ensure_symbol_groups_def new_symbol_result_def
  rspamd_check_group_score_def update_ledgers_def base_score_def sanitize_weight_def
  dgt_def dge_def dsub_def nonzero_def DBL_EPSILON_def Let_def round_defs

lemmas select_defs =
  rspamd_check_action_metric_def action_slots_def set_action_def G_MAXDOUBLE_def
  dgt_def dge_def Let_def

subsection \<open>A counter that wraps\<close>





section \<open>The claims\<close>

subsection \<open>C6: inserting in the idempotent phase\<close>

text \<open>
  Claim C6. When the bit that \<^verbatim>\<open>rspamd_task_insert_result_full\<close> tests,
  \<^verbatim>\<open>RSPAMD_TASK_STAGE_IDEMPOTENT >> 1\<close>, is set in \<^verbatim>\<open>processed_stages\<close>, every insert
  call returns \<^verbatim>\<open>NULL\<close> and leaves the task, and with it the whole metric result (score,
  symbols, group scores, grow factor and the positive and negative ledgers), as it was.
\<close>

theorem C6_idempotent_insert_is_noop:
  assumes "processed_stages task AND drop_bit 1 STAGE \<noteq> 0"
  shows "rspamd_task_insert_result_full STAGE task symbol weight opt flags = Inr (None, task)"
  using assms by (simp add: rspamd_task_insert_result_full_def idempotent_phase_def)

theorem C6_idempotent_insert_is_noop_witness:
  "processed_stages (example_task\<lparr>processed_stages := 8\<rparr>) AND drop_bit 1 (16 :: 32 word) \<noteq> 0 \<and>
   rspamd_task_insert_result_full 16 (example_task\<lparr>processed_stages := 8\<rparr>)
     ''A'' (Fin 1) None {} = Inr (None, example_task\<lparr>processed_stages := 8\<rparr>)"
proof -
  have h: "processed_stages (example_task\<lparr>processed_stages := 8\<rparr>)
             AND drop_bit 1 (16 :: 32 word) \<noteq> 0"
    by simp
  show ?thesis
    using h C6_idempotent_insert_is_noop [OF h, of "''A''" "Fin 1" None "{}"] by simp
qed

subsection \<open>C9: an insert leaves the symbol in the hash\<close>




subsection \<open>C2: the group cap\<close>

text \<open>
  Claim C2 says that the accumulated score of a group whose \<^verbatim>\<open>max_score\<close> is positive
  never exceeds that \<^verbatim>\<open>max_score\<close>. The clamp \<^verbatim>\<open>w = gr->max_score - *group_score\<close> of
  \<^verbatim>\<open>rspamd_check_group_score\<close> is rounded, and so is \<^verbatim>\<open>*gr_score += cur_diff\<close>. In
  the group capped at 9000, the hit of \<open>NEG\<close> with weight \<open>- 10 ^ 20\<close> leaves a group
  score of \<open>- 10 ^ 20\<close>; the hit of \<open>POS\<close> with weight \<open>2 * 10 ^ 20\<close> is clamped to
  \<open>9000 + 10 ^ 20\<close>, which rounds to \<open>10 ^ 20 + 16384\<close>, and the group score ends at
  16384.
\<close>

theorem C2_group_score_above_max:
  "max_score capped_group = Fin 9000 \<and>
   group_score_after (run_inserts 16 capped_task
     [Insert_call ''NEG'' (Fin (- 100000000000000000000)) None {}]) capped_group
     = Some (Fin (- 100000000000000000000)) \<and>
   group_score_after (run_inserts 16 capped_task
     [Insert_call ''NEG'' (Fin (- 100000000000000000000)) None {},
      Insert_call ''POS'' (Fin 200000000000000000000) None {}]) capped_group
     = Some (Fin 16384) \<and>
   dgt (Fin 16384) (max_score capped_group)"
  by (simp add: group_score_after_def capped_task_def capped_group_def example_defs insert_defs)

subsection \<open>C10: a repeat hit leaves the ledgers alone\<close>

text \<open>
  Claim C10. For every insert call on a symbol that is already in the symbols hash, the
  call returns and the fields \<^verbatim>\<open>npositive\<close>, \<^verbatim>\<open>nnegative\<close>, \<^verbatim>\<open>positive_score\<close> and
  \<^verbatim>\<open>negative_score\<close> of the metric result are the same after the call as before it.
\<close>

theorem C10_repeat_hit_keeps_ledgers:
  assumes f: "rspamd_task_find_symbol_result task symbol = Some s0" and c: "cfg task = Some c"
  shows "\<exists>r task' m m'.
     rspamd_task_insert_result_full STAGE task symbol weight opt flags = Inr (r, task') \<and>
     result task = Some m \<and> result task' = Some m' \<and>
     npositive m' = npositive m \<and> nnegative m' = nnegative m \<and>
     positive_score m' = positive_score m \<and> negative_score m' = negative_score m"
proof -
  from f obtain m where m: "result task = Some m" and s0: "map_of (symbols m) symbol = Some s0"
    by (auto simp: rspamd_task_find_symbol_result_def split: option.splits)
  show ?thesis
  proof (cases "idempotent_phase STAGE task")
    case True
    then show ?thesis using m by (simp add: rspamd_task_insert_result_full_def)
  next
    case False
    from insert_step[OF c m, of symbol weight opt flags] obtain s' m' k where
      i: "insert_metric_result_contribution task symbol weight opt flags =
         Inr (s', task\<lparr>result := Some m'\<rparr>, k)"
      and h: "hit task c m symbol weight opt flags = Inr (s', m'\<lparr>symbols := symbols m\<rparr>, k)"
      by blast
    let ?sdef = "cfg_symbols c symbol"
    have "repeat_hit task c (ensure_symbol_groups ?sdef m) ?sdef s0
            (base_score ?sdef (settings task) symbol (sanitize_weight weight) flags) opt flags
          = Inr (s', m'\<lparr>symbols := symbols m\<rparr>, k)"
      using h s0 by (simp add: hit_def)
    from repeat_hit_frame(3-6)[OF this]
    have "npositive m' = npositive m" "nnegative m' = nnegative m"
      "positive_score m' = positive_score m" "negative_score m' = negative_score m"
      by (simp_all add: ensure_symbol_groups_frame)
    then show ?thesis
      using False i m
      by (simp add: rspamd_task_insert_result_full_def insert_metric_result_def)
  qed
qed

theorem C10_repeat_hit_keeps_ledgers_witness:
  "run_inserts 16 example_task [Insert_call ''A'' (Fin 1) None {}] = Inr hit_once_task \<and>
   rspamd_task_find_symbol_result hit_once_task ''A''
     = Some \<lparr>sr_score = Fin 3, options = None, opts_head = [], sr_name = ''A'',
             sym = cfg_symbols example_cfg ''A'', nshots = 1\<rparr> \<and>
   cfg hit_once_task = Some example_cfg \<and>
   (\<exists>r task' m m'.
     rspamd_task_insert_result_full 16 hit_once_task ''A'' (Fin 1) None {} = Inr (r, task') \<and>
     result hit_once_task = Some m \<and> result task' = Some m' \<and>
     npositive m' = npositive m \<and> nnegative m' = nnegative m \<and>
     positive_score m' = positive_score m \<and> negative_score m' = negative_score m)"
proof -
  have r: "run_inserts 16 example_task [Insert_call ''A'' (Fin 1) None {}] = Inr hit_once_task"
    by (simp add: hit_once_task_def example_defs insert_defs)
  have f: "rspamd_task_find_symbol_result hit_once_task ''A''
     = Some \<lparr>sr_score = Fin 3, options = None, opts_head = [], sr_name = ''A'',
             sym = cfg_symbols example_cfg ''A'', nshots = 1\<rparr>"
    by (simp add: rspamd_task_find_symbol_result_def hit_once_task_def)
  have c: "cfg hit_once_task = Some example_cfg"
    by (simp add: hit_once_task_def example_task_def with_fresh_result_def)
  show ?thesis
    using r f c C10_repeat_hit_keeps_ledgers [OF f c, of 16 "Fin 1" None "{}"] by blast
qed

subsection \<open>C7: the head passthrough decides\<close>

text \<open>
  Claim C7. When the passthrough list is not empty, \<^verbatim>\<open>rspamd_check_action_metric\<close>
  returns the action of its head, the configuration's action table carrying each action
  in its own slot. When the head's \<^verbatim>\<open>target_score\<close> is finite, the score becomes
  \<^verbatim>\<open>MIN (target_score, score)\<close> for the no-action head, which is the minimum of the two
  when the score is finite too, and \<^verbatim>\<open>target_score\<close> for any other head; when it is NaN
  the metric result is left as it was.
\<close>

theorem C7_passthrough_head_decides:
  assumes "result task = Some r" and "cfg task = Some c"
    and "passthrough_result r = pr # rest"
    and "action (actions c (pr_action pr)) = pr_action pr"
  shows "\<exists>mres'. rspamd_check_action_metric task mres = Inr (pr_action pr, mres') \<and>
     (isfinite (target_score pr) \<and> pr_action pr = METRIC_ACTION_NOACTION \<longrightarrow>
        mres' = mres\<lparr>score := MIN_macro (target_score pr) (score mres)\<rparr>) \<and>
     (isfinite (target_score pr) \<and> pr_action pr \<noteq> METRIC_ACTION_NOACTION \<longrightarrow>
        mres' = mres\<lparr>score := target_score pr\<rparr>) \<and>
     (isnan (target_score pr) \<longrightarrow> mres' = mres) \<and>
     (\<forall>x y. target_score pr = Fin x \<and> score mres = Fin y \<longrightarrow>
        MIN_macro (target_score pr) (score mres) = Fin (min x y))"
  using assms
  by (cases "target_score pr")
     (auto simp: rspamd_check_action_metric_def Let_def MIN_macro_def min_def)

theorem C7_passthrough_head_decides_witness:
  "result passthrough_task = Some ((rspamd_create_metric_result example_task)
       \<lparr>score := Fin 2,
        passthrough_result :=
          [\<lparr>pr_action = METRIC_ACTION_NOACTION, priority = 20, target_score = Fin 1,
            message = ''m2'', module = ''mod''\<rparr>,
           \<lparr>pr_action = METRIC_ACTION_REJECT, priority = 10, target_score = NaN,
            message = ''m1'', module = ''mod''\<rparr>]\<rparr>) \<and>
   cfg passthrough_task = Some example_cfg \<and>
   action (actions example_cfg METRIC_ACTION_NOACTION) = METRIC_ACTION_NOACTION \<and>
   rspamd_check_action_metric passthrough_task (rspamd_create_metric_result passthrough_task)
     = Inr (METRIC_ACTION_NOACTION,
            (rspamd_create_metric_result passthrough_task)\<lparr>score := Fin 1\<rparr>)"
proof -
  let ?r = "(rspamd_create_metric_result example_task)
       \<lparr>score := Fin 2,
        passthrough_result :=
          [\<lparr>pr_action = METRIC_ACTION_NOACTION, priority = 20, target_score = Fin 1,
            message = ''m2'', module = ''mod''\<rparr>,
           \<lparr>pr_action = METRIC_ACTION_REJECT, priority = 10, target_score = NaN,
            message = ''m1'', module = ''mod''\<rparr>]\<rparr>"
  let ?pr = "\<lparr>pr_action = METRIC_ACTION_NOACTION, priority = 20, target_score = Fin 1,
            message = ''m2'', module = ''mod''\<rparr>"
  have r: "result passthrough_task = Some ?r"
    by (simp add: passthrough_task_def)
  have c: "cfg passthrough_task = Some example_cfg"
    by (simp add: passthrough_task_def example_task_def with_fresh_result_def)
  have p: "passthrough_result ?r = ?pr #
      [\<lparr>pr_action = METRIC_ACTION_REJECT, priority = 10, target_score = NaN,
            message = ''m1'', module = ''mod''\<rparr>]"
    by simp
  have a: "action (actions example_cfg (pr_action ?pr)) = pr_action ?pr"
    by (simp add: example_cfg_def)
  have s: "score (rspamd_create_metric_result passthrough_task) = Fin 2"
    by (simp add: passthrough_task_def rspamd_create_metric_result_def)
  show ?thesis
    using r c a s
      C7_passthrough_head_decides [OF r c p a, of "rspamd_create_metric_result passthrough_task"]
    by (auto simp: MIN_macro_def)
qed

subsection \<open>C1: the shot count\<close>

text \<open>
  Claim C1 says that the sum of \<^verbatim>\<open>nshots\<close> over the symbols hash equals the number of
  phase-valid insert calls. The repeat-hit branch increments \<^verbatim>\<open>nshots\<close> when the call
  has no option, or no option set exists, or the option is a duplicate, but not when the
  option is new to an existing option set. The three calls of the scenario
  \<open>(B, x)\<close>, \<open>(B, x)\<close>, \<open>(B, y)\<close> leave a sum of 2.
\<close>

theorem C1_three_inserts_two_shots:
  "shots_after (run_inserts 16 example_task
     [Insert_call ''B'' (Fin 1) (Some ''x'') {}, Insert_call ''B'' (Fin 1) (Some ''x'') {},
      Insert_call ''B'' (Fin 1) (Some ''y'') {}]) = Some 2"
  by (simp add: shots_after_def total_shots_def example_defs insert_defs)

subsection \<open>C4: an option for a one-parameter symbol that has options\<close>

text \<open>
  Claim C4 says that adding an option to a one-parameter symbol that already has an
  option set changes nothing and fails. For the symbol \<open>O\<close> holding the option \<open>x\<close>,
  adding \<open>y\<close> returns \<^verbatim>\<open>TRUE\<close> and leaves an option set that holds \<open>y\<close>.
\<close>

theorem C4_oneparam_option_replaced:
  "rspamd_task_add_result_option example_task
     (Some \<lparr>sr_score = Fin 1, options = Some {|''x''|}, opts_head = [''x''], sr_name = ''O'',
            sym = cfg_symbols example_cfg ''O'', nshots = 1\<rparr>) (Some ''y'')
   = Inr (True,
       Some \<lparr>sr_score = Fin 1, options = Some {|''y''|}, opts_head = [''x'', ''y''],
             sr_name = ''O'', sym = cfg_symbols example_cfg ''O'', nshots = 1\<rparr>)"
  by (simp add: rspamd_task_add_result_option_def is_oneparam_def new_options_def example_cfg_def)

text \<open>
  Claim C4 as amended. For every symbol result whose definition has the one-parameter
  flag set and which already has an option set, \<^verbatim>\<open>rspamd_task_add_result_option\<close> with
  a present option string takes the \<^verbatim>\<open>else\<close> branch: it returns \<^verbatim>\<open>TRUE\<close> and replaces the
  option set by one that holds the new option alone; score, shot count, name and
  definition of the symbol result stay as they were.
\<close>

theorem C4_oneparam_option_replaces_set:
  assumes "sym sr = Some d" and "RSPAMD_SYMBOL_FLAG_ONEPARAM \<in> sdef_flags d"
    and "options sr = Some os"
  shows "\<exists>sr'. rspamd_task_add_result_option task (Some sr) (Some v) = Inr (True, Some sr') \<and>
     options sr' = Some {|v|} \<and> sr_score sr' = sr_score sr \<and> nshots sr' = nshots sr \<and>
     sym sr' = sym sr \<and> sr_name sr' = sr_name sr"
  using assms
  by (simp add: rspamd_task_add_result_option_def is_oneparam_def new_options_def)

theorem C4_oneparam_option_replaces_set_witness:
  "sym \<lparr>sr_score = Fin 1, options = Some {|''x''|}, opts_head = [''x''], sr_name = ''O'',
         sym = cfg_symbols example_cfg ''O'', nshots = 1\<rparr>
     = Some \<lparr>weight_ptr = Fin 1, groups = [], sdef_nshots = 0,
             sdef_flags = {RSPAMD_SYMBOL_FLAG_ONEPARAM}\<rparr> \<and>
   RSPAMD_SYMBOL_FLAG_ONEPARAM \<in> sdef_flags \<lparr>weight_ptr = Fin 1, groups = [], sdef_nshots = 0,
             sdef_flags = {RSPAMD_SYMBOL_FLAG_ONEPARAM}\<rparr> \<and>
   (\<exists>sr'. rspamd_task_add_result_option example_task
            (Some \<lparr>sr_score = Fin 1, options = Some {|''x''|}, opts_head = [''x''],
                   sr_name = ''O'', sym = cfg_symbols example_cfg ''O'', nshots = 1\<rparr>)
            (Some ''y'') = Inr (True, Some sr') \<and>
     options sr' = Some {|''y''|} \<and> sr_score sr' = Fin 1 \<and> nshots sr' = 1)"
proof -
  let ?sr = "\<lparr>sr_score = Fin 1, options = Some {|''x''|}, opts_head = [''x''], sr_name = ''O'',
         sym = cfg_symbols example_cfg ''O'', nshots = 1\<rparr>"
  let ?d = "\<lparr>weight_ptr = Fin 1, groups = [], sdef_nshots = 0,
             sdef_flags = {RSPAMD_SYMBOL_FLAG_ONEPARAM}\<rparr>"
  have s: "sym ?sr = Some ?d" by (simp add: example_cfg_def)
  have f: "RSPAMD_SYMBOL_FLAG_ONEPARAM \<in> sdef_flags ?d" by simp
  have o: "options ?sr = Some {|''x''|}" by simp
  show ?thesis
    using s f C4_oneparam_option_replaces_set [OF s f o, of example_task "''y''"] by auto
qed

subsection \<open>C5: the option list and the option set\<close>

text \<open>
  Claim C5 says that the option list has no duplicates and as many entries as the option
  set. The \<^verbatim>\<open>else\<close> branch of \<^verbatim>\<open>rspamd_task_add_result_option\<close> starts a new set and
  goes on appending to the old list, so after the calls \<open>(O, x)\<close>, \<open>(O, y)\<close>, \<open>(O, x)\<close>
  on the one-parameter symbol \<open>O\<close> the list is \<open>x, y, x\<close> and the set holds \<open>x\<close> alone.
\<close>

theorem C5_option_list_with_duplicate:
  "map_option opts_head (symbol_after (run_inserts 16 example_task
     [Insert_call ''O'' (Fin 1) (Some ''x'') {}, Insert_call ''O'' (Fin 1) (Some ''y'') {},
      Insert_call ''O'' (Fin 1) (Some ''x'') {}]) ''O'') = Some [''x'', ''y'', ''x''] \<and>
   map_option options (symbol_after (run_inserts 16 example_task
     [Insert_call ''O'' (Fin 1) (Some ''x'') {}, Insert_call ''O'' (Fin 1) (Some ''y'') {},
      Insert_call ''O'' (Fin 1) (Some ''x'') {}]) ''O'') = Some (Some {|''x''|})"
  by (simp add: symbol_after_def rspamd_task_find_symbol_result_def example_defs insert_defs)

subsection \<open>C8: the grow factor after a contribution that is not positive\<close>

text \<open>
  Claim C8 says that an insert call that applies no positive contribution leaves
  \<^verbatim>\<open>grow_factor\<close> as it was. With a configured grow factor of 2: after the hit of \<open>A\<close>
  the grow factor is 2; the first hit of the unknown symbol \<open>U\<close> applies a contribution
  of 0 and leaves a grow factor of 1; and after \<open>A\<close>, \<open>N\<close>, \<open>A\<close> the grow factor is 2
  again, the repeat hit of \<open>N\<close> applies \<open>-1\<close> and leaves a grow factor of 1.
\<close>

theorem C8_grow_factor_reset:
  "grow_factor_after (run_inserts 16 grow_task [Insert_call ''A'' (Fin 1) None {}])
     = Some (Fin 2) \<and>
   contribution_after (run_inserts 16 grow_task [Insert_call ''A'' (Fin 1) None {}])
     (Insert_call ''U'' (Fin 1) None {}) = Some (Applied (Fin 0) (Fin 0)) \<and>
   grow_factor_after (run_inserts 16 grow_task
     [Insert_call ''A'' (Fin 1) None {}, Insert_call ''U'' (Fin 1) None {}]) = Some (Fin 1) \<and>
   grow_factor_after (run_inserts 16 grow_task
     [Insert_call ''A'' (Fin 1) None {}, Insert_call ''N'' (Fin 1) None {},
      Insert_call ''A'' (Fin 1) None {}]) = Some (Fin 2) \<and>
   contribution_after (run_inserts 16 grow_task
     [Insert_call ''A'' (Fin 1) None {}, Insert_call ''N'' (Fin 1) None {},
      Insert_call ''A'' (Fin 1) None {}])
     (Insert_call ''N'' (Fin 1) None {}) = Some (Applied (Fin (- 1)) (Fin (- 1))) \<and>
   grow_factor_after (run_inserts 16 grow_task
     [Insert_call ''A'' (Fin 1) None {}, Insert_call ''N'' (Fin 1) None {},
      Insert_call ''A'' (Fin 1) None {}, Insert_call ''N'' (Fin 1) None {}]) = Some (Fin 1)"
  by (simp add: grow_factor_after_def contribution_after_def grow_task_def example_defs
        insert_defs)

text \<open>
  Claim C8 as amended. Every insert call on a task with a configuration and a metric
  result returns. It leaves \<^verbatim>\<open>grow_factor\<close> and the score as they were in two cases
  only: a repeat hit whose \<^verbatim>\<open>diff\<close> is zero, and a contribution that the group loop
  turned into NaN. In every other case the contribution the group loop left is added to
  the score and \<^verbatim>\<open>grow_factor\<close> is overwritten with \<^verbatim>\<open>next_gf\<close>, which is 1.0
  whenever the value computed before the grow factor was applied (\<^verbatim>\<open>final_score\<close> on a
  first hit, \<^verbatim>\<open>diff\<close> on a repeat hit) is not positive.
\<close>

theorem C8_grow_factor_written_unless_kept_out:
  assumes c: "cfg task = Some c" and m: "result task = Some m"
  shows "\<exists>s task' m' sg d.
     insert_metric_result task symbol weight opt flags = Inr (s, task') \<and>
     result task' = Some m' \<and>
     clamped_diff c task m symbol weight flags = Inr (sg, d) \<and>
     grow_factor m' =
       (if contribution_kept_out c task m symbol weight flags d then grow_factor m
        else insert_next_gf c task m symbol weight flags) \<and>
     score m' =
       (if contribution_kept_out c task m symbol weight flags d then score m
        else dadd (score m) d) \<and>
     (\<not> dgt (insert_diff c task m symbol weight flags) (Fin 0) \<longrightarrow>
        insert_next_gf c task m symbol weight flags = Fin 1)"
proof -
  obtain s task' k where
    i: "insert_metric_result_contribution task symbol weight opt flags = Inr (s, task', k)"
    using insert_total[OF c m] by blast
  from i obtain c' m0 m1 where c': "cfg task = Some c'" and m0: "result task = Some m0"
    and h: "hit task c' m0 symbol weight opt flags = Inr (s, m1, k)"
    and t: "task' = task\<lparr>result := Some (m1\<lparr>symbols := AList.update symbol s (symbols m1)\<rparr>)\<rparr>"
    by (rule insert_elim)
  have e: "c' = c" "m0 = m" using c c' m m0 by simp_all
  have 1: "insert_metric_result task symbol weight opt flags = Inr (s, task')"
    using i by (simp add: insert_metric_result_def)
  from hit_grow_factor[OF h[unfolded e]] obtain sg d where
    2: "clamped_diff c task m symbol weight flags = Inr (sg, d)"
    and 3: "grow_factor m1 =
       (if contribution_kept_out c task m symbol weight flags d then grow_factor m
        else insert_next_gf c task m symbol weight flags)"
    and 4: "score m1 =
       (if contribution_kept_out c task m symbol weight flags d then score m
        else dadd (score m) d)"
    by blast
  show ?thesis
    using 1 2 3 4 t insert_next_gf_not_positive[of c task m symbol weight flags] by simp
qed

theorem C8_grow_factor_written_unless_kept_out_witness:
  "run_inserts 16 grow_task
     [Insert_call ''A'' (Fin 1) None {}, Insert_call ''N'' (Fin 0) None {},
      Insert_call ''A'' (Fin 1) None {}] = Inr signed_zero_task \<and>
   cfg signed_zero_task = Some (example_cfg\<lparr>cfg_grow_factor := Fin 2\<rparr>) \<and>
   result signed_zero_task = Some signed_zero_result \<and>
   grow_factor signed_zero_result = Fin 2 \<and>
   insert_diff (example_cfg\<lparr>cfg_grow_factor := Fin 2\<rparr>) signed_zero_task
     signed_zero_result ''N'' (Fin 1) {RSPAMD_SYMBOL_INSERT_SINGLE} = Fin (- 1) \<and>
   (\<exists>s task' m'.
      insert_metric_result signed_zero_task ''N'' (Fin 1) None {RSPAMD_SYMBOL_INSERT_SINGLE}
        = Inr (s, task') \<and>
      result task' = Some m' \<and> grow_factor m' = Fin 1 \<and> score m' = Fin 5)"
proof -
  let ?c = "example_cfg\<lparr>cfg_grow_factor := Fin 2\<rparr>"
  let ?m = "signed_zero_result"
  have r: "run_inserts 16 grow_task
     [Insert_call ''A'' (Fin 1) None {}, Insert_call ''N'' (Fin 0) None {},
      Insert_call ''A'' (Fin 1) None {}] = Inr signed_zero_task"
    by (simp add: signed_zero_task_def signed_zero_result_def grow_task_def example_defs
          insert_defs)
  have c: "cfg signed_zero_task = Some ?c"
    by (simp add: signed_zero_task_def grow_task_def with_fresh_result_def)
  have m: "result signed_zero_task = Some ?m"
    by (simp add: signed_zero_task_def)
  have g: "grow_factor signed_zero_result = Fin 2"
    by (simp add: signed_zero_result_def)
  have d: "insert_diff ?c signed_zero_task ?m ''N'' (Fin 1) {RSPAMD_SYMBOL_INSERT_SINGLE}
      = Fin (- 1)"
    by (simp add: insert_diff_def signed_zero_task_def signed_zero_result_def grow_task_def
          example_defs insert_defs)
  have k: "clamped_diff ?c signed_zero_task ?m ''N'' (Fin 1) {RSPAMD_SYMBOL_INSERT_SINGLE}
      = Inr (Map.empty, Fin (- 1))"
    unfolding clamped_diff_def d
    by (simp add: signed_zero_task_def signed_zero_result_def grow_task_def example_defs insert_defs)
  have n: "\<not> contribution_kept_out ?c signed_zero_task ?m ''N'' (Fin 1)
      {RSPAMD_SYMBOL_INSERT_SINGLE} (Fin (- 1))"
    by (simp add: contribution_kept_out_def d nonzero_def)
  have s: "score ?m = Fin 6" by (simp add: signed_zero_result_def)
  have z: "\<not> dgt (Fin (- 1)) (Fin 0)" by (simp add: dgt_def)
  have t: "\<exists>s task' m'.
      insert_metric_result signed_zero_task ''N'' (Fin 1) None {RSPAMD_SYMBOL_INSERT_SINGLE}
        = Inr (s, task') \<and>
      result task' = Some m' \<and> grow_factor m' = Fin 1 \<and> score m' = Fin 5"
    using C8_grow_factor_written_unless_kept_out [OF c m, of "''N''" "Fin 1" None
        "{RSPAMD_SYMBOL_INSERT_SINGLE}"]
    unfolding d k by (auto simp: n s z round_defs)
  show ?thesis
    using r c m g d t by blast
qed

subsection \<open>C3: the action selected without a passthrough\<close>

text \<open>
  Claim C3 says that on a tie of thresholds the last slot encountered wins. With reject
  and add-header both at 5 and a score of 6 the loop returns reject, the first of the
  two, where the claimed selection is add-header.
\<close>

theorem C3_tie_first_slot_wins:
  "rspamd_check_action_metric tie_task tie_result = Inr (METRIC_ACTION_REJECT, tie_result) \<and>
   claimed_action tie_cfg tie_result = METRIC_ACTION_ADD_HEADER"
  by (simp add: tie_result_def tie_task_def tie_cfg_def example_defs select_defs
        claimed_action_def qualifies_def largest_threshold_def)

text \<open>
  Claim C3 as amended. When the passthrough list is empty, \<^verbatim>\<open>rspamd_check_action_metric\<close>
  leaves the metric result as it is and considers only the slots whose threshold is not
  NaN, is reached by the score and lies above \<^verbatim>\<open>-G_MAXDOUBLE\<close>; it returns the action of
  the one with the largest threshold, on a tie the first in iteration order, and
  no-action when there is no such slot.
\<close>

theorem C3_first_largest_threshold_selected:
  assumes "result task = Some r" and "cfg task = Some c" and "passthrough_result r = []"
  shows "rspamd_check_action_metric task mres = Inr (selected_action c mres, mres)"
  using assms
  by (simp add: rspamd_check_action_metric_def select_action_char beats_selectable
        selected_action_def set_action_def Let_def split: option.splits)

theorem C3_first_largest_threshold_selected_witness:
  "result example_task = Some (rspamd_create_metric_result example_task) \<and>
   cfg example_task = Some example_cfg \<and>
   passthrough_result (rspamd_create_metric_result example_task) = [] \<and>
   rspamd_check_action_metric example_task
     ((rspamd_create_metric_result example_task)\<lparr>score := Fin 12\<rparr>)
   = Inr (METRIC_ACTION_REJECT, (rspamd_create_metric_result example_task)\<lparr>score := Fin 12\<rparr>)"
proof -
  have r: "result example_task = Some (rspamd_create_metric_result example_task)"
    by (simp add: example_defs)
  have c: "cfg example_task = Some example_cfg"
    by (simp add: example_defs)
  have p: "passthrough_result (rspamd_create_metric_result example_task) = []"
    by (simp add: example_defs)
  have s: "selected_action example_cfg
      ((rspamd_create_metric_result example_task)\<lparr>score := Fin 12\<rparr>) = METRIC_ACTION_REJECT"
    by (simp add: selected_action_def selectable_def qualifies_def largest_threshold_def
          example_defs action_slots_def G_MAXDOUBLE_def dgt_def dge_def)
  show ?thesis
    using r c p s
      C3_first_largest_threshold_selected [OF r c p,
        of "(rspamd_create_metric_result example_task)\<lparr>score := Fin 12\<rparr>"]
    by simp
qed

end
